theory Spec2Isabelle
  imports Main "HOL-Library.Word"
begin

unbundle bit_operations_syntax

section \<open>The CHIP-8 machine state (chip8.h)\<close>

text \<open>
  The C types \<^verbatim>\<open>uint8_t\<close> and \<^verbatim>\<open>uint16_t\<close> are words, so that \<open>+\<close> and \<open>-\<close> wrap
  as the C assignments to these types do. Array indices are computed in C's \<^verbatim>\<open>int\<close>
  (after integer promotion), where the sums that occur cannot overflow: they are
  natural numbers here.
\<close>

type_synonym u8 = "8 word"
type_synonym u16 = "16 word"

definition WINDOW_WIDTH :: nat where "WINDOW_WIDTH = 64"
definition WINDOW_HEIGHT :: nat where "WINDOW_HEIGHT = 32"
definition NUM_REGISTERS :: nat where "NUM_REGISTERS = 16"
definition RAM_SIZE :: nat where "RAM_SIZE = 0x1000"
definition STACK_SIZE :: nat where "STACK_SIZE = 0x40"
definition FONT_SIZE :: nat where "FONT_SIZE = 0x200"
definition KEYS :: nat where "KEYS = 16"
definition CHIP8_KEY_DOWN :: u8 where "CHIP8_KEY_DOWN = 1"
definition CHIP8_KEY_UP :: u8 where "CHIP8_KEY_UP = 0"

text \<open>
  \<^verbatim>\<open>struct Instruction\<close>. The fields \<^verbatim>\<open>raw, nnn, n, x, y, kk\<close> carry the prefix
  \<open>ins_\<close>, since one-letter constants would capture the variables of every statement.
\<close>

record Instruction =
  ins_raw :: u16
  ins_nnn :: u16
  ins_n :: u8
  ins_x :: u8
  ins_y :: u8
  ins_kk :: u8

datatype State = QUIT | PAUSED | RUNNING

text \<open>
  \<^verbatim>\<open>struct Chip8\<close>. The arrays are lists; \<^verbatim>\<open>stackPointer\<close>, a pointer into
  \<^verbatim>\<open>stack\<close>, is the index of the entry it points to. The last two fields are the
  function-static variables \<^verbatim>\<open>keyPressed\<close> and \<^verbatim>\<open>key\<close> of the \<^verbatim>\<open>0xFX0A\<close> case of
  \<^verbatim>\<open>emulateInstruction\<close>, which live as long as the machine does.
\<close>

record Chip8 =
  frameBuffer :: "u8 list"
  V :: "u8 list"
  stack :: "u16 list"
  ram :: "u8 list"
  keypad :: "u8 list"
  indexRegister :: u16
  stackPointer :: nat
  programCounter :: u16
  delayTimer :: u8
  soundTimer :: u8
  draw :: u8
  instruction :: Instruction
  state :: State
  keyPressed :: u8
  key :: u16

text \<open>The array sizes the C declaration fixes.\<close>

definition chip8_wf :: "Chip8 \<Rightarrow> bool" where
  "chip8_wf c \<longleftrightarrow>
     length (frameBuffer c) = WINDOW_WIDTH * WINDOW_HEIGHT \<and>
     length (V c) = NUM_REGISTERS \<and>
     length (stack c) = STACK_SIZE \<and>
     length (ram c) = RAM_SIZE \<and>
     length (keypad c) = KEYS"

text \<open>
  An access outside an array is undefined behaviour in C. The model makes each one an
  error value, named after the array.
\<close>

datatype error = RamOutOfBounds | StackOutOfBounds | KeypadOutOfBounds

definition ram_read :: "Chip8 \<Rightarrow> nat \<Rightarrow> error + u8" where
  "ram_read c a = (if a < RAM_SIZE then Inr (ram c ! a) else Inl RamOutOfBounds)"

definition ram_write :: "Chip8 \<Rightarrow> nat \<Rightarrow> u8 \<Rightarrow> error + Chip8" where
  "ram_write c a v =
     (if a < RAM_SIZE then Inr (c\<lparr>ram := (ram c)[a := v]\<rparr>) else Inl RamOutOfBounds)"

definition keypad_read :: "Chip8 \<Rightarrow> nat \<Rightarrow> error + u8" where
  "keypad_read c k = (if k < KEYS then Inr (keypad c ! k) else Inl KeypadOutOfBounds)"

section \<open>Initialisation (main, initChip8, loadFont, loadRom)\<close>

text \<open>\<^verbatim>\<open>Chip8 chip8 = {0}\<close> in \<^verbatim>\<open>main\<close>; the enumerator with value 0 is \<^verbatim>\<open>QUIT\<close>, and the
  static variables start as their initialisers say.\<close>

definition chip8_zero :: Chip8 where
  "chip8_zero =
     \<lparr> frameBuffer = replicate (WINDOW_WIDTH * WINDOW_HEIGHT) 0,
       V = replicate NUM_REGISTERS 0,
       stack = replicate STACK_SIZE 0,
       ram = replicate RAM_SIZE 0,
       keypad = replicate KEYS 0,
       indexRegister = 0,
       stackPointer = 0,
       programCounter = 0,
       delayTimer = 0,
       soundTimer = 0,
       draw = 0,
       instruction = \<lparr> ins_raw = 0, ins_nnn = 0, ins_n = 0, ins_x = 0, ins_y = 0, ins_kk = 0 \<rparr>,
       state = QUIT,
       keyPressed = CHIP8_KEY_UP,
       key = 0xFF \<rparr>"

text \<open>The initialiser of \<^verbatim>\<open>font\<close> in \<^verbatim>\<open>loadFont\<close>, row by row, with the source's comments.\<close>

definition font_rows :: "u8 list list" where
  "font_rows =
     [ [0xF0, 0x90, 0x90, 0x90, 0xF0],  \<comment> \<open>0\<close>
       [0x20, 0x60, 0x20, 0x20, 0x70],  \<comment> \<open>1\<close>
       [0xF0, 0x10, 0xF0, 0x80, 0xF0],  \<comment> \<open>2\<close>
       [0xF0, 0x10, 0xF0, 0x10, 0xF0],  \<comment> \<open>3\<close>
       [0x90, 0x90, 0xF0, 0x10, 0x10],  \<comment> \<open>4\<close>
       [0xF0, 0x80, 0xF0, 0x10, 0xF0],  \<comment> \<open>5\<close>
       [0xF0, 0x80, 0xF0, 0x90, 0xF0],  \<comment> \<open>6\<close>
       [0xF0, 0x10, 0x20, 0x40, 0x40],  \<comment> \<open>7\<close>
       [0xF0, 0x90, 0xF0, 0x90, 0xF0],  \<comment> \<open>8\<close>
       [0xF0, 0x90, 0xF0, 0x10, 0xF0],  \<comment> \<open>9\<close>
       [0xF0, 0x80, 0x80, 0x80, 0xF0],  \<comment> \<open>C\<close>
       [0xE0, 0x90, 0x90, 0x90, 0xE0],  \<comment> \<open>D\<close>
       [0xF0, 0x80, 0xF0, 0x80, 0xF0],  \<comment> \<open>E\<close>
       [0xF0, 0x80, 0xF0, 0x80, 0x80]   \<comment> \<open>F\<close>
     ]"

text \<open>\<^verbatim>\<open>const uint8_t font[FONT_SIZE] = {...}\<close>: the elements the initialiser does not
  list are zero.\<close>

definition font :: "u8 list" where
  "font = concat font_rows @ replicate (FONT_SIZE - length (concat font_rows)) 0"

text \<open>\<^verbatim>\<open>memcpy(&chip8->ram, &font, FONT_SIZE)\<close>.\<close>

definition loadFont :: "Chip8 \<Rightarrow> Chip8" where
  "loadFont c = c\<lparr>ram := font @ drop FONT_SIZE (ram c)\<rparr>"

definition initChip8 :: "Chip8 \<Rightarrow> Chip8" where
  "initChip8 c = (loadFont (c\<lparr>stackPointer := 0\<rparr>))\<lparr>state := RUNNING\<rparr>"

text \<open>
  \<^verbatim>\<open>loadRom\<close>, with the content of the file as a list of bytes. \<^verbatim>\<open>fread\<close> writes
  the whole file at \<^verbatim>\<open>&chip8->ram[0x200]\<close>; a file that does not fit runs over the array.
\<close>

definition loadRom :: "Chip8 \<Rightarrow> u8 list \<Rightarrow> error + Chip8" where
  "loadRom c rom =
     (let programEntryPoint = 0x200 in
      if programEntryPoint + length rom \<le> RAM_SIZE
      then Inr (c\<lparr>ram := take programEntryPoint (ram c) @ rom
                          @ drop (programEntryPoint + length rom) (ram c),
                   programCounter := of_nat programEntryPoint\<rparr>)
      else Inl RamOutOfBounds)"

section \<open>Timers (updateTimers)\<close>

definition updateTimers :: "Chip8 \<Rightarrow> Chip8" where
  "updateTimers c =
     (let c1 = (if delayTimer c \<noteq> 0 then c\<lparr>delayTimer := delayTimer c - 1\<rparr> else c)
      in if soundTimer c1 \<noteq> 0 then c1\<lparr>soundTimer := soundTimer c1 - 1\<rparr> else c1)"

section \<open>Fetch and decode (nextInstruction)\<close>

definition nextInstruction :: "Chip8 \<Rightarrow> error + Chip8" where
  "nextInstruction c =
     (case ram_read c (unat (programCounter c)) of
        Inl e \<Rightarrow> Inl e
      | Inr hi \<Rightarrow>
     (case ram_read c (unat (programCounter c) + 1) of
        Inl e \<Rightarrow> Inl e
      | Inr lo \<Rightarrow>
          (let r = push_bit 8 (ucast hi :: u16) OR ucast lo in
           Inr (c\<lparr>programCounter := programCounter c + 2,
                  instruction :=
                    \<lparr> ins_raw = r,
                      ins_nnn = r AND 0x0FFF,
                      ins_n = ucast (r AND 0x000F),
                      ins_x = ucast (drop_bit 8 r AND 0x000F),
                      ins_y = ucast (drop_bit 4 r AND 0x000F),
                      ins_kk = ucast (r AND 0x00FF) \<rparr>\<rparr>))))"

section \<open>Execute (the switch of emulateInstruction)\<close>

text \<open>Register access: \<^verbatim>\<open>chip8->V[r]\<close>. Every register index of the program is a
  masked nibble or a constant, so it is below 16.\<close>

definition Vx :: "Chip8 \<Rightarrow> u8" where
  "Vx c = V c ! unat (ins_x (instruction c))"

definition Vy :: "Chip8 \<Rightarrow> u8" where
  "Vy c = V c ! unat (ins_y (instruction c))"

definition setV :: "nat \<Rightarrow> u8 \<Rightarrow> Chip8 \<Rightarrow> Chip8" where
  "setV r v c = c\<lparr>V := (V c)[r := v]\<rparr>"

definition setVx :: "u8 \<Rightarrow> Chip8 \<Rightarrow> Chip8" where
  "setVx v c = setV (unat (ins_x (instruction c))) v c"

definition skip :: "Chip8 \<Rightarrow> Chip8" where
  "skip c = c\<lparr>programCounter := programCounter c + 2\<rparr>"

definition bool_u8 :: "bool \<Rightarrow> u8" where
  "bool_u8 b = (if b then 1 else 0)"

subsection \<open>case 0x0: clear the screen, return\<close>

definition op_0 :: "Chip8 \<Rightarrow> error + Chip8" where
  "op_0 c =
     (if ins_kk (instruction c) = 0xE0
      then Inr (c\<lparr>frameBuffer := replicate (WINDOW_WIDTH * WINDOW_HEIGHT) 0, draw := 1\<rparr>)
      else if ins_kk (instruction c) = 0xEE
      then (if 0 < stackPointer c \<and> stackPointer c - 1 < STACK_SIZE
            then Inr (c\<lparr>stackPointer := stackPointer c - 1,
                        programCounter := stack c ! (stackPointer c - 1)\<rparr>)
            else Inl StackOutOfBounds)
      else Inr c)"

subsection \<open>case 0x2: call\<close>

definition op_2 :: "Chip8 \<Rightarrow> error + Chip8" where
  "op_2 c =
     (if stackPointer c < STACK_SIZE
      then Inr (c\<lparr>stack := (stack c)[stackPointer c := programCounter c],
                  stackPointer := stackPointer c + 1,
                  programCounter := ins_nnn (instruction c)\<rparr>)
      else Inl StackOutOfBounds)"

subsection \<open>case 0x8: register to register\<close>

definition op_8 :: "Chip8 \<Rightarrow> Chip8" where
  "op_8 c =
     (let n = ins_n (instruction c) in
      if n = 0x0 then setVx (Vy c) c
      else if n = 0x1 then setVx (Vx c OR Vy c) c
      else if n = 0x2 then setVx (Vx c AND Vy c) c
      else if n = 0x3 then setVx (Vx c XOR Vy c) c
      else if n = 0x4 then
        (let carry = bool_u8 (unat (Vx c) + unat (Vy c) > 0xFF);
             c1 = setVx (Vx c + Vy c) c
         in setV 0xF carry c1)
      else if n = 0x5 then
        (let c1 = setV 0xF (bool_u8 (Vx c > Vy c)) c
         in setVx (Vx c1 - Vy c1) c1)
      else if n = 0x6 then
        (let c1 = setV 0xF (Vx c AND 1) c
         in setVx (drop_bit 1 (Vx c1)) c1)
      else if n = 0x7 then
        (let c1 = setV 0xF (bool_u8 (Vy c > Vx c)) c
         in setVx (Vy c1 - Vx c1) c1)
      else if n = 0xE then
        (let c1 = setV 0xF (drop_bit 7 (Vx c) AND 1) c
         in setVx (push_bit 1 (Vx c1)) c1)
      else c)"

subsection \<open>case 0xD: draw a sprite\<close>

text \<open>
  The inner loop \<^verbatim>\<open>for (uint8_t j = 7; j > 0; j--)\<close> with its body; \<open>j\<close> takes the
  values 7 down to 1, and the loop ends when \<open>j\<close> reaches 0 or at the \<^verbatim>\<open>break\<close>.
  The index into the frame buffer is inside the array at every access: \<open>dx\<close> starts
  below 64 and \<open>dy\<close> below 32 (the remainders in \<open>op_D\<close>), and each loop goes on only
  while its incremented counter is still below the bound.
\<close>

fun draw_bits :: "u8 \<Rightarrow> u8 \<Rightarrow> nat \<Rightarrow> u8 \<Rightarrow> Chip8 \<Rightarrow> Chip8" where
  "draw_bits spriteByte dy 0 dx c = c"
| "draw_bits spriteByte dy (Suc j') dx c =
     (let j = Suc j';
          spriteBit = spriteByte AND push_bit j 1;
          at = unat dy * WINDOW_WIDTH + unat dx;
          frameBufferByte = frameBuffer c ! at;
          c1 = (if spriteBit \<noteq> 0 \<and> frameBufferByte \<noteq> 0
                then setV 0xF (bool_u8 (spriteBit \<noteq> 0 \<and> frameBufferByte \<noteq> 0)) c
                else c);
          c2 = c1\<lparr>frameBuffer := (frameBuffer c1)[at := frameBufferByte XOR spriteBit]\<rparr>;
          dx' = dx + 1
      in if unat dx' \<ge> WINDOW_WIDTH then c2 else draw_bits spriteByte dy j' dx' c2)"

lemma u8_loop_measure:
  fixes w :: u8
  shows "i \<le> unat w \<Longrightarrow> 255 - i < 256 - i"
  using unsigned_less [of w, where ?'a = nat] by simp

lemma u8_loop_measure_less:
  fixes w :: u8
  shows "i < unat w \<Longrightarrow> 255 - i < 256 - i"
  using unsigned_less [of w, where ?'a = nat] by simp

text \<open>The outer loop \<^verbatim>\<open>for (uint8_t i = 0; i < chip8->instruction.n; i++)\<close>; \<open>x\<close> is
  the constant \<^verbatim>\<open>x\<close> of the source, the column every row starts in.\<close>

function draw_rows :: "u8 \<Rightarrow> nat \<Rightarrow> u8 \<Rightarrow> Chip8 \<Rightarrow> error + Chip8" where
  "draw_rows x i dy c =
     (if i < unat (ins_n (instruction c)) then
        (case ram_read c (unat (indexRegister c) + i) of
           Inl e \<Rightarrow> Inl e
         | Inr spriteByte \<Rightarrow>
             (let c1 = draw_bits spriteByte dy 7 x c;
                  dy' = dy + 1
              in if unat dy' \<ge> WINDOW_HEIGHT then Inr c1 else draw_rows x (i + 1) dy' c1))
      else Inr c)"
  by pat_completeness auto
termination
  by (relation "measure (\<lambda>(x, i, dy, c). 256 - i)")
     (auto intro: u8_loop_measure_less)

declare draw_rows.simps [simp del]

definition op_D :: "Chip8 \<Rightarrow> error + Chip8" where
  "op_D c =
     (let dx = Vx c mod of_nat WINDOW_WIDTH;
          dy = Vy c mod of_nat WINDOW_HEIGHT;
          x = dx;
          c1 = setV 0xF 0 c
      in case draw_rows x 0 dy c1 of
           Inl e \<Rightarrow> Inl e
         | Inr c2 \<Rightarrow> Inr (c2\<lparr>draw := 1\<rparr>))"

subsection \<open>case 0xE: skip on key\<close>

definition op_E :: "Chip8 \<Rightarrow> error + Chip8" where
  "op_E c =
     (let kk = ins_kk (instruction c) in
      if kk = 0x9E then
        (case keypad_read c (unat (Vx c)) of
           Inl e \<Rightarrow> Inl e
         | Inr k \<Rightarrow> Inr (if k \<noteq> 0 then skip c else c))
      else if kk = 0xA1 then
        (case keypad_read c (unat (Vx c)) of
           Inl e \<Rightarrow> Inl e
         | Inr k \<Rightarrow> Inr (if k = 0 then skip c else c))
      else Inr c)"

subsection \<open>case 0xF\<close>

text \<open>\<^verbatim>\<open>0xFX0A\<close>: the scan of the keypad runs only while \<^verbatim>\<open>key == 0xFF\<close> and stops at
  the first key that is down.\<close>

definition op_FX0A :: "Chip8 \<Rightarrow> error + Chip8" where
  "op_FX0A c =
     (let c1 = (if key c = 0xFF
                then (case List.find (\<lambda>i. keypad c ! i \<noteq> 0) [0 ..< KEYS] of
                        None \<Rightarrow> c
                      | Some i \<Rightarrow> c\<lparr>keyPressed := CHIP8_KEY_DOWN, key := of_nat i\<rparr>)
                else c)
      in if keyPressed c1 = 0 then Inr (c1\<lparr>programCounter := programCounter c1 - 2\<rparr>)
         else (case keypad_read c1 (unat (key c1)) of
                 Inl e \<Rightarrow> Inl e
               | Inr k \<Rightarrow>
                   if k = 0 then Inr (c1\<lparr>programCounter := programCounter c1 - 2\<rparr>)
                   else Inr ((setVx (ucast (key c1)) c1)
                               \<lparr>keyPressed := CHIP8_KEY_UP, key := 0xFF\<rparr>)))"

text \<open>\<^verbatim>\<open>0xFX33\<close>: the first store is the one at \<^verbatim>\<open>indexRegister + 2\<close>, the highest
  of the three addresses.\<close>

definition op_FX33 :: "Chip8 \<Rightarrow> error + Chip8" where
  "op_FX33 c =
     (let bcd = Vx c; a = unat (indexRegister c) in
      case ram_write c (a + 2) (bcd mod 10) of
        Inl e \<Rightarrow> Inl e
      | Inr c1 \<Rightarrow>
     (let bcd1 = bcd div 10 in
      case ram_write c1 (a + 1) (bcd1 mod 10) of
        Inl e \<Rightarrow> Inl e
      | Inr c2 \<Rightarrow>
     (let bcd2 = bcd1 div 10 in ram_write c2 a bcd2)))"

text \<open>The loops \<^verbatim>\<open>for (uint8_t i = 0; i <= chip8->instruction.x; i++)\<close> of
  \<^verbatim>\<open>0xFX55\<close> and \<^verbatim>\<open>0xFX65\<close>.\<close>

function store_regs :: "nat \<Rightarrow> Chip8 \<Rightarrow> error + Chip8" where
  "store_regs i c =
     (if i \<le> unat (ins_x (instruction c)) then
        (case ram_write c (unat (indexRegister c) + i) (V c ! i) of
           Inl e \<Rightarrow> Inl e
         | Inr c1 \<Rightarrow> store_regs (i + 1) c1)
      else Inr c)"
  by pat_completeness auto
termination
  by (relation "measure (\<lambda>(i, c). 256 - i)")
     (auto intro: u8_loop_measure)

declare store_regs.simps [simp del]

function load_regs :: "nat \<Rightarrow> Chip8 \<Rightarrow> error + Chip8" where
  "load_regs i c =
     (if i \<le> unat (ins_x (instruction c)) then
        (case ram_read c (unat (indexRegister c) + i) of
           Inl e \<Rightarrow> Inl e
         | Inr v \<Rightarrow> load_regs (i + 1) (setV i v c))
      else Inr c)"
  by pat_completeness auto
termination
  by (relation "measure (\<lambda>(i, c). 256 - i)")
     (auto intro: u8_loop_measure)

declare load_regs.simps [simp del]

text \<open>The parameter \<open>rnd\<close> of the execute step is the value that \<^verbatim>\<open>rand()\<close> returns
  if the instruction calls it.\<close>

definition op_F :: "Chip8 \<Rightarrow> error + Chip8" where
  "op_F c =
     (let kk = ins_kk (instruction c) in
      if kk = 0x07 then Inr (setVx (delayTimer c) c)
      else if kk = 0x0A then op_FX0A c
      else if kk = 0x15 then Inr (c\<lparr>delayTimer := Vx c\<rparr>)
      else if kk = 0x18 then Inr (c\<lparr>soundTimer := Vx c\<rparr>)
      else if kk = 0x1E then Inr (c\<lparr>indexRegister := indexRegister c + ucast (Vx c)\<rparr>)
      else if kk = 0x29 then Inr (c\<lparr>indexRegister := ucast (Vx c) * 5\<rparr>)
      else if kk = 0x33 then op_FX33 c
      else if kk = 0x55 then store_regs 0 c
      else if kk = 0x65 then load_regs 0 c
      else Inr c)"

subsection \<open>The switch on the top four bits\<close>

text \<open>The sixteen cases cover every value of \<^verbatim>\<open>raw >> 12\<close>; the \<^verbatim>\<open>default\<close> case of the
  source, which only prints, is the last \<open>else\<close> and is never taken. In the cases
  \<^verbatim>\<open>0x8\<close>, \<^verbatim>\<open>0xE\<close> and \<^verbatim>\<open>0xF\<close> an encoding that no inner case matches leaves the
  machine as the fetch left it.\<close>

definition emulateInstruction_switch :: "nat \<Rightarrow> Chip8 \<Rightarrow> error + Chip8" where
  "emulateInstruction_switch rnd c =
     (let family = drop_bit 12 (ins_raw (instruction c)) in
      if family = 0x0 then op_0 c
      else if family = 0x1 then Inr (c\<lparr>programCounter := ins_nnn (instruction c)\<rparr>)
      else if family = 0x2 then op_2 c
      else if family = 0x3 then
        Inr (if Vx c = ins_kk (instruction c) then skip c else c)
      else if family = 0x4 then
        Inr (if Vx c \<noteq> ins_kk (instruction c) then skip c else c)
      else if family = 0x5 then
        Inr (if Vx c = Vy c then skip c else c)
      else if family = 0x6 then Inr (setVx (ins_kk (instruction c)) c)
      else if family = 0x7 then Inr (setVx (Vx c + ins_kk (instruction c)) c)
      else if family = 0x8 then Inr (op_8 c)
      else if family = 0x9 then
        Inr (if Vx c \<noteq> Vy c then skip c else c)
      else if family = 0xA then Inr (c\<lparr>indexRegister := ins_nnn (instruction c)\<rparr>)
      else if family = 0xB then
        Inr (c\<lparr>programCounter := ins_nnn (instruction c) + ucast (V c ! 0x0)\<rparr>)
      else if family = 0xC then
        Inr (setVx (of_nat (rnd mod 256) AND ins_kk (instruction c)) c)
      else if family = 0xD then op_D c
      else if family = 0xE then op_E c
      else if family = 0xF then op_F c
      else Inr c)"

definition emulateInstruction :: "nat \<Rightarrow> Chip8 \<Rightarrow> error + Chip8" where
  "emulateInstruction rnd c =
     (case nextInstruction c of
        Inl e \<Rightarrow> Inl e
      | Inr c1 \<Rightarrow> emulateInstruction_switch rnd c1)"

text \<open>Several decode/execute cycles in a row, one value of \<^verbatim>\<open>rand()\<close> for each; the
  first out-of-bounds access ends the run.\<close>

fun cycles :: "nat list \<Rightarrow> Chip8 \<Rightarrow> error + Chip8" where
  "cycles [] c = Inr c"
| "cycles (rnd # rnds) c =
     (case emulateInstruction rnd c of
        Inl e \<Rightarrow> Inl e
      | Inr c1 \<Rightarrow> cycles rnds c1)"

section \<open>Test machines\<close>

text \<open>
  The machine \<^verbatim>\<open>main\<close> has built when it enters its loop: the zeroed struct after
  \<^verbatim>\<open>initChip8\<close> and \<^verbatim>\<open>loadRom\<close>, for a ROM that fits into the memory (lemma
  \<open>loadRom_boot\<close> below).
\<close>

definition boot :: "u8 list \<Rightarrow> Chip8" where
  "boot rom =
     (let c = initChip8 chip8_zero in
      c\<lparr>ram := take 0x200 (ram c) @ rom @ drop (0x200 + length rom) (ram c),
        programCounter := 0x200\<rparr>)"

text \<open>The program of the end-to-end test: \<^verbatim>\<open>6005 6106 8014 00E0\<close>.\<close>

definition program_6005_6106_8014_00E0 :: "u8 list" where
  "program_6005_6106_8014_00E0 = [0x60, 0x05, 0x61, 0x06, 0x80, 0x14, 0x00, 0xE0]"

text \<open>\<^verbatim>\<open>8015\<close> (subtract register 1 from register 0) with both registers equal to 5.\<close>

definition sub_equal_machine :: Chip8 where
  "sub_equal_machine = (boot [0x80, 0x15])\<lparr>V := (replicate 16 0)[0 := 5, 1 := 5]\<rparr>"

text \<open>\<^verbatim>\<open>8F14\<close> (add register 1 to register 0xF) with 200 in register 0xF and 100 in
  register 1.\<close>

definition add_into_VF_machine :: Chip8 where
  "add_into_VF_machine = (boot [0x8F, 0x14])\<lparr>V := (replicate 16 0)[0xF := 200, 1 := 100]\<rparr>"

text \<open>A program that is the one instruction \<^verbatim>\<open>2200\<close> at \<^verbatim>\<open>0x200\<close>: a subroutine call
  to itself, so that every cycle is one more nested call.\<close>

definition nested_calls_machine :: Chip8 where
  "nested_calls_machine = boot [0x22, 0x00]"

text \<open>\<^verbatim>\<open>2300\<close> (call the subroutine at \<^verbatim>\<open>0x300\<close>) with sixteen return addresses on the
  stack already.\<close>

definition sixteen_calls_machine :: Chip8 where
  "sixteen_calls_machine = (boot [0x23, 0x00])\<lparr>stackPointer := 16\<rparr>"

text \<open>\<^verbatim>\<open>F029\<close> (point \<^verbatim>\<open>indexRegister\<close> at the glyph of the digit in register 0) with
  the digits \<open>0xA\<close> and \<open>0xE\<close> in register 0.\<close>

definition font_digit_A_machine :: Chip8 where
  "font_digit_A_machine = (boot [0xF0, 0x29])\<lparr>V := (replicate 16 0)[0 := 0xA]\<rparr>"

definition font_digit_E_machine :: Chip8 where
  "font_digit_E_machine = (boot [0xF0, 0x29])\<lparr>V := (replicate 16 0)[0 := 0xE]\<rparr>"

text \<open>Programs that take an address to the end of the memory: a jump to \<^verbatim>\<open>0xFFF\<close>;
  \<^verbatim>\<open>AFFE F033\<close>, the three decimal digits of register 0 stored from \<^verbatim>\<open>0xFFE\<close> on;
  \<^verbatim>\<open>AFFF D002\<close>, a sprite of two bytes read from \<^verbatim>\<open>0xFFF\<close> on.\<close>

definition jump_to_last_byte :: "u8 list" where
  "jump_to_last_byte = [0x1F, 0xFF]"

definition bcd_at_0xFFE :: "u8 list" where
  "bcd_at_0xFFE = [0xAF, 0xFE, 0xF0, 0x33]"

definition sprite_at_0xFFF :: "u8 list" where
  "sprite_at_0xFFF = [0xAF, 0xFF, 0xD0, 0x02]"

text \<open>\<^verbatim>\<open>F033\<close> with \<^verbatim>\<open>indexRegister\<close> at \<^verbatim>\<open>0xFF0\<close>, the highest value with
  \<^verbatim>\<open>indexRegister + 15\<close> inside the memory.\<close>

definition bcd_at_0xFF0_machine :: Chip8 where
  "bcd_at_0xFF0_machine = (boot [0xF0, 0x33])\<lparr>indexRegister := 0xFF0\<rparr>"

text \<open>\<^verbatim>\<open>D001 D001\<close>: the first row of the glyph at address 0, drawn twice at \<open>(0, 0)\<close>.\<close>

definition draw_twice_machine :: Chip8 where
  "draw_twice_machine = boot [0xD0, 0x01, 0xD0, 0x01]"

text \<open>\<^verbatim>\<open>A204 D001\<close> and the sprite byte \<^verbatim>\<open>0x81\<close> at \<^verbatim>\<open>0x204\<close>: a sprite of one row with
  its highest and its lowest bit set, drawn at \<open>(0, 0)\<close>.\<close>

definition sprite_81_program :: "u8 list" where
  "sprite_81_program = [0xA2, 0x04, 0xD0, 0x01, 0x81]"

text \<open>\<^verbatim>\<open>6001 A208 D011 D111\<close> and the sprite byte \<^verbatim>\<open>0xC0\<close> at \<^verbatim>\<open>0x208\<close>: the
  two-pixel sprite drawn at \<open>(1, 0)\<close> and then at \<open>(0, 0)\<close>, so that the pixel
  \<open>(1, 0)\<close> is met by a sprite bit twice.\<close>

definition overlap_program :: "u8 list" where
  "overlap_program = [0x60, 0x01, 0xA2, 0x08, 0xD0, 0x11, 0xD1, 0x11, 0xC0]"

text \<open>\<^verbatim>\<open>AFFF 6001 F01E F055\<close>: \<^verbatim>\<open>indexRegister\<close> is set to \<^verbatim>\<open>0xFFF\<close>, register 0 to 1,
  \<^verbatim>\<open>indexRegister\<close> raised by register 0 to \<^verbatim>\<open>0x1000\<close>, and register 0 stored there.\<close>

definition index_past_memory :: "u8 list" where
  "index_past_memory = [0xAF, 0xFF, 0x60, 0x01, 0xF0, 0x1E, 0xF0, 0x55]"

text \<open>\<^verbatim>\<open>F055\<close> with \<^verbatim>\<open>indexRegister\<close> at \<^verbatim>\<open>0x1000\<close>, the value the first three
  instructions of the program above leave in it.\<close>

definition store_at_0x1000_machine :: Chip8 where
  "store_at_0x1000_machine = (boot [0xF0, 0x55])\<lparr>indexRegister := 0x1000\<rparr>"

section \<open>Proof devices for the sprite loops\<close>

text \<open>
  What the inner loop XORs into cell \<open>k\<close> of the frame buffer: a function of the sprite
  byte and the loop variables alone, not of the machine.
\<close>

fun bits_mask :: "u8 \<Rightarrow> u8 \<Rightarrow> nat \<Rightarrow> u8 \<Rightarrow> nat \<Rightarrow> u8" where
  "bits_mask spriteByte dy 0 dx k = 0"
| "bits_mask spriteByte dy (Suc j') dx k =
     (if k = unat dy * WINDOW_WIDTH + unat dx then spriteByte AND push_bit (Suc j') 1 else 0)
     XOR (if unat (dx + 1) \<ge> WINDOW_WIDTH then 0 else bits_mask spriteByte dy j' (dx + 1) k)"

text \<open>Two machines that hold the same sprite data and instruction; and a machine whose
  frame buffer is another's, cell by cell XORed with \<open>m\<close>.\<close>

definition same_sprite :: "Chip8 \<Rightarrow> Chip8 \<Rightarrow> bool" where
  "same_sprite d c \<longleftrightarrow>
     ram d = ram c \<and> indexRegister d = indexRegister c \<and> instruction d = instruction c"

definition xors_with :: "(nat \<Rightarrow> u8) \<Rightarrow> Chip8 \<Rightarrow> Chip8 \<Rightarrow> bool" where
  "xors_with m d d' \<longleftrightarrow>
     length (frameBuffer d') = length (frameBuffer d) \<and>
     (\<forall>k < length (frameBuffer d). frameBuffer d' ! k = frameBuffer d ! k XOR m k)"

section \<open>Facts about the fetch and the test machines\<close>

lemma nibble_bound:
  fixes r :: u16
  shows "unat (ucast (r AND 0x000F) :: u8) < 16"
proof -
  have "r AND 0x000F \<le> 0x000F" by (rule word_and_le1)
  then have "unat (r AND 0x000F) \<le> 15" by (simp add: word_le_nat_alt)
  moreover have "unat (ucast (r AND 0x000F) :: u8) \<le> unat (r AND 0x000F)"
    by (simp add: unsigned_ucast_eq take_bit_nat_less_eq_self)
  ultimately show ?thesis by linarith
qed

lemma nextInstruction_nibbles:
  assumes "nextInstruction c = Inr c1"
  shows "unat (ins_x (instruction c1)) < 16" "unat (ins_y (instruction c1)) < 16"
        "unat (ins_n (instruction c1)) < 16"
  using assms nibble_bound
  by (auto simp: nextInstruction_def Let_def split: sum.splits)

lemma nextInstruction_frame:
  assumes "nextInstruction c = Inr c1"
  shows "V c1 = V c" "frameBuffer c1 = frameBuffer c" "ram c1 = ram c" "stack c1 = stack c"
    "keypad c1 = keypad c" "stackPointer c1 = stackPointer c"
    "indexRegister c1 = indexRegister c" "state c1 = state c" "draw c1 = draw c"
    "delayTimer c1 = delayTimer c" "soundTimer c1 = soundTimer c"
    "keyPressed c1 = keyPressed c" "key c1 = key c"
    "programCounter c1 = programCounter c + 2"
  using assms
  by (auto simp: nextInstruction_def Let_def split: sum.splits)

lemma nextInstruction_wf:
  "nextInstruction c = Inr c1 \<Longrightarrow> chip8_wf c1 = chip8_wf c"
  by (simp add: chip8_wf_def nextInstruction_frame)

lemma fetch_at:
  assumes "unat (programCounter c) + 1 < RAM_SIZE"
  shows "nextInstruction c =
    Inr (c\<lparr>programCounter := programCounter c + 2,
           instruction :=
             (let r = push_bit 8 (ucast (ram c ! unat (programCounter c)) :: u16)
                        OR ucast (ram c ! (unat (programCounter c) + 1))
              in \<lparr> ins_raw = r,
                   ins_nnn = r AND 0x0FFF,
                   ins_n = ucast (r AND 0x000F),
                   ins_x = ucast (drop_bit 8 r AND 0x000F),
                   ins_y = ucast (drop_bit 4 r AND 0x000F),
                   ins_kk = ucast (r AND 0x00FF) \<rparr>)\<rparr>)"
  using assms by (simp add: nextInstruction_def ram_read_def Let_def)

lemma replicate16: "replicate 16 x = [x,x,x,x,x,x,x,x,x,x,x,x,x,x,x,x]"
  by (simp add: numeral_eq_Suc)

lemma length_font: "length font = 0x200"
  by (simp add: font_def font_rows_def FONT_SIZE_def)

lemma loadRom_boot:
  "0x200 + length rom \<le> RAM_SIZE \<Longrightarrow> loadRom (initChip8 chip8_zero) rom = Inr (boot rom)"
  by (simp add: loadRom_def boot_def Let_def)

lemma boot_fields:
  "frameBuffer (boot rom) = replicate 2048 0"
  "V (boot rom) = replicate 16 0"
  "stack (boot rom) = replicate 64 0"
  "keypad (boot rom) = replicate 16 0"
  "indexRegister (boot rom) = 0"
  "stackPointer (boot rom) = 0"
  "programCounter (boot rom) = 0x200"
  "delayTimer (boot rom) = 0"
  "soundTimer (boot rom) = 0"
  "draw (boot rom) = 0"
  "state (boot rom) = RUNNING"
  "keyPressed (boot rom) = 0"
  "key (boot rom) = 0xFF"
  by (simp_all add: boot_def initChip8_def loadFont_def chip8_zero_def Let_def
      WINDOW_WIDTH_def WINDOW_HEIGHT_def NUM_REGISTERS_def STACK_SIZE_def KEYS_def
      CHIP8_KEY_UP_def)

lemma boot_ram:
  "ram (boot rom) = font @ rom @ replicate (0xE00 - length rom) 0"
  by (simp add: boot_def initChip8_def loadFont_def chip8_zero_def Let_def length_font
      RAM_SIZE_def FONT_SIZE_def)

lemma boot_ram_rom:
  "i < length rom \<Longrightarrow> ram (boot rom) ! (0x200 + i) = rom ! i"
  by (simp add: boot_ram nth_append length_font)

lemma boot_ram_first:
  "ram (boot (a # b # rest)) ! 0x200 = a" "ram (boot (a # b # rest)) ! 0x201 = b"
  using boot_ram_rom[of 0 "a # b # rest"] boot_ram_rom[of 1 "a # b # rest"] by simp_all

lemma boot_wf: "0x200 + length rom \<le> RAM_SIZE \<Longrightarrow> chip8_wf (boot rom)"
  by (simp add: chip8_wf_def boot_fields boot_ram length_font RAM_SIZE_def
      WINDOW_WIDTH_def WINDOW_HEIGHT_def NUM_REGISTERS_def STACK_SIZE_def KEYS_def)

section \<open>Timers\<close>

lemma updateTimers_delay: "unat (delayTimer (updateTimers c)) = unat (delayTimer c) - 1"
  by (auto simp: updateTimers_def Let_def unat_minus_one)

lemma updateTimers_sound: "unat (soundTimer (updateTimers c)) = unat (soundTimer c) - 1"
  by (auto simp: updateTimers_def Let_def unat_minus_one)

lemma updateTimers_ticks:
  "unat (delayTimer ((updateTimers ^^ k) c)) = unat (delayTimer c) - k \<and>
   unat (soundTimer ((updateTimers ^^ k) c)) = unat (soundTimer c) - k"
  by (induction k) (simp_all add: updateTimers_delay updateTimers_sound)

text \<open>
  Claim C9. One call of \<^verbatim>\<open>updateTimers\<close> takes 1 from the delay timer and from the
  sound timer where they are not zero and leaves a timer that is zero at zero. After
  \<open>k\<close> calls each timer holds its old value minus \<open>k\<close>, stopping at zero (the
  subtraction of natural numbers), so no sequence of ticks wraps a timer around; and five
  ticks on a delay timer of 3 leave it at 0.
\<close>

theorem updateTimers_floor:
  "delayTimer (updateTimers c) = (if delayTimer c = 0 then 0 else delayTimer c - 1) \<and>
   soundTimer (updateTimers c) = (if soundTimer c = 0 then 0 else soundTimer c - 1) \<and>
   unat (delayTimer ((updateTimers ^^ k) c)) = unat (delayTimer c) - k \<and>
   unat (soundTimer ((updateTimers ^^ k) c)) = unat (soundTimer c) - k \<and>
   delayTimer ((updateTimers ^^ 5) (c\<lparr>delayTimer := 3\<rparr>)) = 0"
proof -
  have one: "delayTimer (updateTimers c) = (if delayTimer c = 0 then 0 else delayTimer c - 1)"
    "soundTimer (updateTimers c) = (if soundTimer c = 0 then 0 else soundTimer c - 1)"
    by (simp_all add: updateTimers_def Let_def)
  have "unat (delayTimer ((updateTimers ^^ 5) (c\<lparr>delayTimer := 3\<rparr>))) = 0"
    using updateTimers_ticks [of 5 "c\<lparr>delayTimer := 3\<rparr>"] by simp
  then have five: "delayTimer ((updateTimers ^^ 5) (c\<lparr>delayTimer := 3\<rparr>)) = 0"
    by (simp add: unat_eq_0)
  show ?thesis using one five updateTimers_ticks [of k c] by simp
qed

theorem updateTimers_floor_witness:
  "unat (delayTimer ((updateTimers ^^ 7) ((boot [])\<lparr>delayTimer := 3, soundTimer := 9\<rparr>))) = 0 \<and>
   unat (soundTimer ((updateTimers ^^ 7) ((boot [])\<lparr>delayTimer := 3, soundTimer := 9\<rparr>))) = 2"
  using updateTimers_floor [of "(boot [])\<lparr>delayTimer := 3, soundTimer := 9\<rparr>" 7]
  by simp

section \<open>Register-to-register arithmetic\<close>

text \<open>
  Claim C10. When the register-to-register add \<^verbatim>\<open>0x8XY4\<close> has \<open>X = 0xF\<close>, the
  instruction leaves the carry in register \<open>0xF\<close>: 1 if the sum of the two operands, as
  they were before the instruction, is above 255, else 0. The truncated sum, stored
  first, is overwritten.
\<close>

theorem add_carry_into_VF:
  assumes wf: "chip8_wf c"
    and fetch: "nextInstruction c = Inr c1"
    and fam: "drop_bit 12 (ins_raw (instruction c1)) = 0x8"
    and n: "ins_n (instruction c1) = 0x4"
    and x: "ins_x (instruction c1) = 0xF"
  shows "\<exists>c'. emulateInstruction rnd c = Inr c' \<and>
           V c' ! 0xF =
             (if unat (V c ! 0xF) + unat (V c ! unat (ins_y (instruction c1))) > 0xFF
              then 1 else 0)"
proof -
  have len: "length (V c1) = 16"
    using wf fetch by (simp add: chip8_wf_def NUM_REGISTERS_def nextInstruction_frame)
  have "emulateInstruction rnd c = Inr (op_8 c1)"
    using fetch fam by (simp add: emulateInstruction_def emulateInstruction_switch_def)
  moreover have "V (op_8 c1) ! 0xF =
      (if unat (V c1 ! 0xF) + unat (V c1 ! unat (ins_y (instruction c1))) > 0xFF
       then 1 else 0)"
    using len n x
    by (simp add: op_8_def Let_def setV_def setVx_def Vx_def Vy_def bool_u8_def)
  ultimately show ?thesis using fetch by (simp add: nextInstruction_frame)
qed

theorem add_carry_into_VF_witness:
  "chip8_wf add_into_VF_machine \<and>
   (\<exists>c'. emulateInstruction 0 add_into_VF_machine = Inr c' \<and> V c' ! 0xF = 1)"
proof -
  have wf: "chip8_wf add_into_VF_machine"
    using boot_wf [of "[0x8F, 0x14]"]
    by (simp add: add_into_VF_machine_def chip8_wf_def RAM_SIZE_def NUM_REGISTERS_def)
  have fetch: "nextInstruction add_into_VF_machine =
      Inr (add_into_VF_machine\<lparr>programCounter := 0x202,
             instruction := \<lparr>ins_raw = 0x8F14, ins_nnn = 0xF14, ins_n = 4, ins_x = 0xF,
                             ins_y = 1, ins_kk = 0x14\<rparr>\<rparr>)"
    by (simp add: add_into_VF_machine_def fetch_at boot_fields boot_ram_first RAM_SIZE_def)
  show ?thesis
    using wf add_carry_into_VF [OF wf fetch, of 0]
    by (simp add: add_into_VF_machine_def boot_fields)
qed

text \<open>
  Claim C7, as amended. For \<open>X\<close> and \<open>Y\<close> other than \<open>0xF\<close>, the register-to-register
  subtract \<^verbatim>\<open>0x8XY5\<close> sets register \<open>0xF\<close> to 1 if and only if \<open>V[X] > V[Y]\<close> held before
  the instruction (strictly: equal operands give 0), and stores \<open>(V[X] - V[Y]) mod 256\<close>
  in \<open>V[X]\<close>.
\<close>

theorem sub_flag_strict:
  assumes wf: "chip8_wf c"
    and fetch: "nextInstruction c = Inr c1"
    and fam: "drop_bit 12 (ins_raw (instruction c1)) = 0x8"
    and n: "ins_n (instruction c1) = 0x5"
    and x: "ins_x (instruction c1) \<noteq> 0xF"
    and y: "ins_y (instruction c1) \<noteq> 0xF"
  shows "\<exists>c'. emulateInstruction rnd c = Inr c' \<and>
           V c' ! 0xF =
             (if V c ! unat (ins_x (instruction c1)) > V c ! unat (ins_y (instruction c1))
              then 1 else 0) \<and>
           V c' ! unat (ins_x (instruction c1))
             = V c ! unat (ins_x (instruction c1)) - V c ! unat (ins_y (instruction c1)) \<and>
           uint (V c' ! unat (ins_x (instruction c1)))
             = (uint (V c ! unat (ins_x (instruction c1)))
                 - uint (V c ! unat (ins_y (instruction c1)))) mod 256"
proof -
  let ?x = "unat (ins_x (instruction c1))" and ?y = "unat (ins_y (instruction c1))"
  have len: "length (V c1) = 16"
    using wf fetch by (simp add: chip8_wf_def NUM_REGISTERS_def nextInstruction_frame)
  have xb: "?x < 16" and yb: "?y < 16" using fetch by (rule nextInstruction_nibbles)+
  have xF: "?x \<noteq> 15" using x by (simp add: word_unat_eq_iff)
  have yF: "?y \<noteq> 15" using y by (simp add: word_unat_eq_iff)
  have run: "emulateInstruction rnd c = Inr (op_8 c1)"
    using fetch fam by (simp add: emulateInstruction_def emulateInstruction_switch_def)
  have flag: "V (op_8 c1) ! 0xF = (if V c1 ! ?x > V c1 ! ?y then 1 else 0)"
    using len n xb yb xF yF
    by (simp add: op_8_def Let_def setV_def setVx_def Vx_def Vy_def bool_u8_def)
  have diff: "V (op_8 c1) ! ?x = V c1 ! ?x - V c1 ! ?y"
    using len n xb yb xF yF
    by (simp add: op_8_def Let_def setV_def setVx_def Vx_def Vy_def bool_u8_def)
  have "uint (V c1 ! ?x - V c1 ! ?y) = (uint (V c1 ! ?x) - uint (V c1 ! ?y)) mod 256"
    by (simp add: uint_word_arith_bintrs take_bit_eq_mod)
  with run flag diff show ?thesis using fetch by (simp add: nextInstruction_frame)
qed

lemma sub_equal_machine_wf: "chip8_wf sub_equal_machine"
  using boot_wf [of "[0x80, 0x15]"]
  by (simp add: sub_equal_machine_def chip8_wf_def RAM_SIZE_def NUM_REGISTERS_def)

lemma sub_equal_machine_fetch:
  "nextInstruction sub_equal_machine =
     Inr (sub_equal_machine\<lparr>programCounter := 0x202,
            instruction := \<lparr>ins_raw = 0x8015, ins_nnn = 0x015, ins_n = 5, ins_x = 0,
                            ins_y = 1, ins_kk = 0x15\<rparr>\<rparr>)"
  by (simp add: sub_equal_machine_def fetch_at boot_fields boot_ram_first RAM_SIZE_def)

theorem sub_flag_strict_witness:
  "chip8_wf sub_equal_machine \<and>
   (\<exists>c'. emulateInstruction 0 sub_equal_machine = Inr c' \<and> V c' ! 0xF = 0 \<and> V c' ! 0 = 0)"
  using sub_equal_machine_wf
    sub_flag_strict [OF sub_equal_machine_wf sub_equal_machine_fetch, of 0]
  by (auto simp: sub_equal_machine_def boot_fields)

text \<open>The claim as stated fails where the operands are equal: \<open>V[0] = V[1] = 5\<close>, so
  \<open>V[X] \<ge> V[Y]\<close>, and \<^verbatim>\<open>8015\<close> leaves 0 in register \<open>0xF\<close> (the last entry).\<close>

theorem sub_flag_equal_operands_counterexample:
  "V sub_equal_machine ! 0 \<ge> V sub_equal_machine ! 1 \<and>
   map_sum id V (emulateInstruction 0 sub_equal_machine)
     = Inr [0, 5, 0, 0, 0, 0, 0, 0, 0, 0, 0, 0, 0, 0, 0, 0]"
  by (simp add: emulateInstruction_def sub_equal_machine_fetch emulateInstruction_switch_def
      op_8_def Let_def setV_def setVx_def Vx_def Vy_def bool_u8_def)
     (simp add: sub_equal_machine_def replicate16)

section \<open>Subroutine calls\<close>

lemma cycles_append:
  "cycles (xs @ ys) c = (case cycles xs c of Inl e \<Rightarrow> Inl e | Inr c1 \<Rightarrow> cycles ys c1)"
  by (induction xs arbitrary: c) (auto split: sum.splits)

lemma call_step:
  assumes wf: "chip8_wf c"
    and fetch: "nextInstruction c = Inr c1"
    and fam: "drop_bit 12 (ins_raw (instruction c1)) = 0x2"
    and sp: "stackPointer c < STACK_SIZE"
  shows "emulateInstruction rnd c =
           Inr (c1\<lparr>stack := (stack c)[stackPointer c := programCounter c + 2],
                  stackPointer := stackPointer c + 1,
                  programCounter := ins_nnn (instruction c1)\<rparr>)"
  using fetch fam sp
  by (simp add: emulateInstruction_def emulateInstruction_switch_def op_2_def
      nextInstruction_frame)

text \<open>
  Claim C2, as amended. The stack has \<^verbatim>\<open>STACK_SIZE = 0x40\<close> entries, and the call
  \<^verbatim>\<open>0x2NNN\<close> checks nothing. With fewer than 64 return addresses on the stack (with 16
  of them, for one) it stores the address of the next instruction as one more entry,
  moves the stack pointer up by one and jumps to \<open>NNN\<close>; the run state stays as it
  was. With 64 entries the store falls outside the array.
\<close>

theorem op_2_push:
  assumes wf: "chip8_wf c"
    and fetch: "nextInstruction c = Inr c1"
    and fam: "drop_bit 12 (ins_raw (instruction c1)) = 0x2"
  shows "if stackPointer c < STACK_SIZE
         then \<exists>c'. emulateInstruction rnd c = Inr c' \<and>
           stackPointer c' = stackPointer c + 1 \<and>
           stack c' ! stackPointer c = programCounter c + 2 \<and>
           stack c' = (stack c)[stackPointer c := programCounter c + 2] \<and>
           programCounter c' = ins_nnn (instruction c1) \<and>
           state c' = state c \<and> chip8_wf c'
         else emulateInstruction rnd c = Inl StackOutOfBounds"
proof (cases "stackPointer c < STACK_SIZE")
  case True
  have len: "length (stack c) = STACK_SIZE" using wf by (simp add: chip8_wf_def)
  have wf1: "chip8_wf c1" using wf fetch by (simp add: nextInstruction_wf)
  show ?thesis
    using True len wf1 fetch call_step [OF wf fetch fam True, of rnd]
    by (simp add: nextInstruction_frame chip8_wf_def)
next
  case False
  then show ?thesis
    using fetch fam
    by (simp add: emulateInstruction_def emulateInstruction_switch_def op_2_def
        nextInstruction_frame)
qed

lemma nested_call_cycle:
  assumes wf: "chip8_wf c" and pc: "programCounter c = 0x200"
    and ram: "ram c ! 0x200 = 0x22" "ram c ! 0x201 = 0x00"
    and sp: "stackPointer c < STACK_SIZE"
  shows "\<exists>c'. emulateInstruction rnd c = Inr c' \<and> chip8_wf c' \<and> programCounter c' = 0x200 \<and>
            ram c' = ram c \<and> stackPointer c' = stackPointer c + 1 \<and> state c' = state c"
proof -
  have fetch: "nextInstruction c =
      Inr (c\<lparr>programCounter := 0x202,
             instruction := \<lparr>ins_raw = 0x2200, ins_nnn = 0x200, ins_n = 0, ins_x = 2,
                             ins_y = 0, ins_kk = 0\<rparr>\<rparr>)"
    using pc ram by (simp add: fetch_at RAM_SIZE_def)
  show ?thesis
    using wf call_step [OF wf fetch _ sp, of rnd]
    by (simp add: chip8_wf_def)
qed

lemma nested_calls:
  "k \<le> 64 \<Longrightarrow>
   \<exists>c. cycles (replicate k rnd) nested_calls_machine = Inr c \<and> chip8_wf c \<and>
       programCounter c = 0x200 \<and> ram c = ram nested_calls_machine \<and>
       stackPointer c = k \<and> state c = RUNNING"
proof (induction k)
  case 0
  show ?case using boot_wf [of "[0x22, 0x00]"]
    by (simp add: nested_calls_machine_def boot_fields RAM_SIZE_def)
next
  case (Suc k)
  then obtain c where c: "cycles (replicate k rnd) nested_calls_machine = Inr c" "chip8_wf c"
    "programCounter c = 0x200" "ram c = ram nested_calls_machine" "stackPointer c = k"
    "state c = RUNNING"
    by auto
  have ram: "ram c ! 0x200 = 0x22" "ram c ! 0x201 = 0x00"
    by (simp_all add: c nested_calls_machine_def boot_ram_first)
  have "stackPointer c < STACK_SIZE" using Suc.prems c by (simp add: STACK_SIZE_def)
  from nested_call_cycle [OF c(2) c(3) ram this, of rnd]
  obtain c' where "emulateInstruction rnd c = Inr c'" "chip8_wf c'" "programCounter c' = 0x200"
            "ram c' = ram c" "stackPointer c' = stackPointer c + 1" "state c' = state c"
    by blast
  note c' = this
  have "replicate (Suc k) rnd = replicate k rnd @ [rnd]"
    by (simp add: replicate_append_same)
  then have "cycles (replicate (Suc k) rnd) nested_calls_machine = cycles [rnd] c"
    by (simp only: cycles_append c(1) sum.case)
  then have "cycles (replicate (Suc k) rnd) nested_calls_machine = Inr c'"
    using c'(1) by simp
  then show ?case using c c' by simp
qed

text \<open>The claim as stated fails: seventeen nested calls in a row leave seventeen
  entries on the stack and the machine running.\<close>

theorem seventeen_nested_calls_counterexample:
  "map_sum id stackPointer (cycles (replicate 17 0) nested_calls_machine) = Inr 17 \<and>
   map_sum id state (cycles (replicate 17 0) nested_calls_machine) = Inr RUNNING"
  using nested_calls [of 17 0] by auto

theorem op_2_push_witness:
  "chip8_wf sixteen_calls_machine \<and> stackPointer sixteen_calls_machine = 16 \<and>
   (\<exists>c'. emulateInstruction 0 sixteen_calls_machine = Inr c' \<and> stackPointer c' = 17 \<and>
      stack c' ! 16 = 0x202 \<and> programCounter c' = 0x300 \<and> state c' = RUNNING)"
proof -
  have wf: "chip8_wf sixteen_calls_machine"
    using boot_wf [of "[0x23, 0x00]"]
    by (simp add: sixteen_calls_machine_def chip8_wf_def RAM_SIZE_def)
  have fetch: "nextInstruction sixteen_calls_machine =
      Inr (sixteen_calls_machine\<lparr>programCounter := 0x202,
             instruction := \<lparr>ins_raw = 0x2300, ins_nnn = 0x300, ins_n = 0, ins_x = 3,
                             ins_y = 0, ins_kk = 0\<rparr>\<rparr>)"
    by (simp add: sixteen_calls_machine_def fetch_at boot_fields boot_ram_first RAM_SIZE_def)
  show ?thesis
    using wf op_2_push [OF wf fetch, of 0]
    by (auto simp: sixteen_calls_machine_def boot_fields STACK_SIZE_def)
qed

section \<open>The end-to-end program\<close>

lemma loadRom_program:
  assumes wf: "chip8_wf c0"
  shows "\<exists>c. loadRom c0 program_6005_6106_8014_00E0 = Inr c \<and> chip8_wf c \<and>
     programCounter c = 0x200 \<and> V c = V c0 \<and>
     ram c ! 0x200 = 0x60 \<and> ram c ! 0x201 = 0x05 \<and> ram c ! 0x202 = 0x61 \<and>
     ram c ! 0x203 = 0x06 \<and> ram c ! 0x204 = 0x80 \<and> ram c ! 0x205 = 0x14 \<and>
     ram c ! 0x206 = 0x00 \<and> ram c ! 0x207 = 0xE0"
  using wf
  by (simp add: loadRom_def program_6005_6106_8014_00E0_def chip8_wf_def RAM_SIZE_def Let_def
      nth_append)

lemma run_program:
  assumes wf: "chip8_wf c" and pc: "programCounter c = 0x200"
    and prog: "ram c ! 0x200 = 0x60" "ram c ! 0x201 = 0x05" "ram c ! 0x202 = 0x61"
      "ram c ! 0x203 = 0x06" "ram c ! 0x204 = 0x80" "ram c ! 0x205 = 0x14"
      "ram c ! 0x206 = 0x00" "ram c ! 0x207 = 0xE0"
  shows "\<exists>c'. cycles [r1, r2, r3, r4] c = Inr c' \<and>
           V c' = (V c)[0 := 5, 1 := 6, 0 := 11, 0xF := 0] \<and>
           frameBuffer c' = replicate 2048 0 \<and> draw c' = 1"
proof -
  have len: "length (V c) = 16" using wf by (simp add: chip8_wf_def NUM_REGISTERS_def)
  define c1 where "c1 = c\<lparr>programCounter := 0x202,
      instruction := \<lparr>ins_raw = 0x6005, ins_nnn = 5, ins_n = 5, ins_x = 0, ins_y = 0,
                      ins_kk = 5\<rparr>,
      V := (V c)[0 := 5]\<rparr>"
  have s1: "emulateInstruction r1 c = Inr c1"
    using pc prog
    by (simp add: emulateInstruction_def fetch_at RAM_SIZE_def emulateInstruction_switch_def
        setVx_def setV_def c1_def)
  define c2 where "c2 = c1\<lparr>programCounter := 0x204,
      instruction := \<lparr>ins_raw = 0x6106, ins_nnn = 0x106, ins_n = 6, ins_x = 1, ins_y = 0,
                      ins_kk = 6\<rparr>,
      V := (V c)[0 := 5, 1 := 6]\<rparr>"
  have s2: "emulateInstruction r2 c1 = Inr c2"
    using pc prog
    by (simp add: emulateInstruction_def fetch_at RAM_SIZE_def emulateInstruction_switch_def
        setVx_def setV_def c1_def c2_def)
  define c3 where "c3 = c2\<lparr>programCounter := 0x206,
      instruction := \<lparr>ins_raw = 0x8014, ins_nnn = 0x014, ins_n = 4, ins_x = 0, ins_y = 1,
                      ins_kk = 0x14\<rparr>,
      V := (V c)[0 := 5, 1 := 6, 0 := 11, 0xF := 0]\<rparr>"
  have s3: "emulateInstruction r3 c2 = Inr c3"
    using pc prog len
    by (simp add: emulateInstruction_def fetch_at RAM_SIZE_def emulateInstruction_switch_def
        setVx_def setV_def c1_def c2_def c3_def op_8_def Vx_def Vy_def bool_u8_def Let_def)
  define c4 where "c4 = c3\<lparr>programCounter := 0x208,
      instruction := \<lparr>ins_raw = 0x00E0, ins_nnn = 0x0E0, ins_n = 0, ins_x = 0, ins_y = 0xE,
                      ins_kk = 0xE0\<rparr>,
      frameBuffer := replicate 2048 0, draw := 1\<rparr>"
  have s4: "emulateInstruction r4 c3 = Inr c4"
    using pc prog len
    by (simp add: emulateInstruction_def fetch_at RAM_SIZE_def emulateInstruction_switch_def
        c1_def c2_def c3_def c4_def op_0_def WINDOW_WIDTH_def WINDOW_HEIGHT_def)
  have "cycles [r1, r2, r3, r4] c = Inr c4" by (simp add: s1 s2 s3 s4)
  moreover have "V c4 = (V c)[0 := 5, 1 := 6, 0 := 11, 0xF := 0] \<and>
      frameBuffer c4 = replicate 2048 0 \<and> draw c4 = 1"
    by (simp add: c4_def c3_def)
  ultimately show ?thesis by blast
qed

text \<open>
  Claim C6, as amended. Loading the program \<^verbatim>\<open>6005 6106 8014 00E0\<close> at \<^verbatim>\<open>0x200\<close> into
  any machine and running four decode/execute cycles leaves register 0 equal to
  \<open>5 + 6 = 11\<close> (\<^verbatim>\<open>8014\<close> is the add \<^verbatim>\<open>0x8XY4\<close>), every cell of the pixel buffer
  zero and the redraw flag \<^verbatim>\<open>draw\<close> set.
\<close>

theorem end_to_end_add:
  assumes wf: "chip8_wf c0"
  shows "\<exists>c c'. loadRom c0 program_6005_6106_8014_00E0 = Inr c \<and>
           cycles [r1, r2, r3, r4] c = Inr c' \<and>
           V c' ! 0 = 11 \<and>
           frameBuffer c' = replicate (WINDOW_WIDTH * WINDOW_HEIGHT) 0 \<and>
           draw c' = 1"
proof -
  from loadRom_program [OF wf] obtain c where
    c: "loadRom c0 program_6005_6106_8014_00E0 = Inr c" "chip8_wf c" "programCounter c = 0x200"
      "ram c ! 0x200 = 0x60" "ram c ! 0x201 = 0x05" "ram c ! 0x202 = 0x61"
      "ram c ! 0x203 = 0x06" "ram c ! 0x204 = 0x80" "ram c ! 0x205 = 0x14"
      "ram c ! 0x206 = 0x00" "ram c ! 0x207 = 0xE0"
    by blast
  have len: "length (V c) = 16" using c(2) by (simp add: chip8_wf_def NUM_REGISTERS_def)
  from run_program [OF c(2-), of r1 r2 r3 r4] obtain c' where
    "cycles [r1, r2, r3, r4] c = Inr c'" "V c' = (V c)[0 := 5, 1 := 6, 0 := 11, 0xF := 0]"
    "frameBuffer c' = replicate 2048 0" "draw c' = 1"
    by blast
  then show ?thesis using c(1) len
    by (auto simp: WINDOW_WIDTH_def WINDOW_HEIGHT_def)
qed

lemma initChip8_wf: "chip8_wf (initChip8 chip8_zero)"
  by (simp add: chip8_wf_def initChip8_def loadFont_def chip8_zero_def length_font
      RAM_SIZE_def FONT_SIZE_def)

theorem end_to_end_add_witness:
  "chip8_wf (initChip8 chip8_zero) \<and>
   (\<exists>c'. cycles [0, 0, 0, 0] (boot program_6005_6106_8014_00E0) = Inr c' \<and>
      V c' ! 0 = 11 \<and> frameBuffer c' = replicate 2048 0 \<and> draw c' = 1)"
  using initChip8_wf end_to_end_add [OF initChip8_wf, of 0 0 0 0]
    loadRom_boot [of program_6005_6106_8014_00E0]
  by (auto simp: program_6005_6106_8014_00E0_def RAM_SIZE_def WINDOW_WIDTH_def WINDOW_HEIGHT_def)

text \<open>The claim as stated fails: on the machine \<^verbatim>\<open>main\<close> builds, the four cycles
  leave 11 in register 0 (the first entry), and not \<open>5 | 6 = 7\<close>.\<close>

theorem end_to_end_or_counterexample:
  "map_sum id V (cycles [0, 0, 0, 0] (boot program_6005_6106_8014_00E0))
     = Inr [11, 6, 0, 0, 0, 0, 0, 0, 0, 0, 0, 0, 0, 0, 0, 0]"
proof -
  have ram: "ram (boot program_6005_6106_8014_00E0) ! 0x200 = 0x60"
    "ram (boot program_6005_6106_8014_00E0) ! 0x201 = 0x05"
    "ram (boot program_6005_6106_8014_00E0) ! 0x202 = 0x61"
    "ram (boot program_6005_6106_8014_00E0) ! 0x203 = 0x06"
    "ram (boot program_6005_6106_8014_00E0) ! 0x204 = 0x80"
    "ram (boot program_6005_6106_8014_00E0) ! 0x205 = 0x14"
    "ram (boot program_6005_6106_8014_00E0) ! 0x206 = 0x00"
    "ram (boot program_6005_6106_8014_00E0) ! 0x207 = 0xE0"
    by (simp_all add: boot_ram nth_append length_font program_6005_6106_8014_00E0_def)
  have wf: "chip8_wf (boot program_6005_6106_8014_00E0)"
    by (rule boot_wf) (simp add: program_6005_6106_8014_00E0_def RAM_SIZE_def)
  from run_program [OF wf _ ram, of 0 0 0 0] show ?thesis
    by (auto simp: boot_fields replicate16)
qed

section \<open>The font table\<close>

lemma font_pointer_fetch:
  "nextInstruction ((boot [0xF0, 0x29])\<lparr>V := vs\<rparr>) =
     Inr ((boot [0xF0, 0x29])\<lparr>V := vs, programCounter := 0x202,
            instruction := \<lparr>ins_raw = 0xF029, ins_nnn = 0x029, ins_n = 9, ins_x = 0,
                            ins_y = 2, ins_kk = 0x29\<rparr>\<rparr>)"
  by (simp add: fetch_at boot_fields boot_ram_first RAM_SIZE_def)

lemma font_bytes:
  "concat font_rows =
     [0xF0, 0x90, 0x90, 0x90, 0xF0, 0x20, 0x60, 0x20, 0x20, 0x70,
      0xF0, 0x10, 0xF0, 0x80, 0xF0, 0xF0, 0x10, 0xF0, 0x10, 0xF0,
      0x90, 0x90, 0xF0, 0x10, 0x10, 0xF0, 0x80, 0xF0, 0x10, 0xF0,
      0xF0, 0x80, 0xF0, 0x90, 0xF0, 0xF0, 0x10, 0x20, 0x40, 0x40,
      0xF0, 0x90, 0xF0, 0x90, 0xF0, 0xF0, 0x90, 0xF0, 0x10, 0xF0,
      0xF0, 0x80, 0x80, 0x80, 0xF0, 0xE0, 0x90, 0x90, 0x90, 0xE0,
      0xF0, 0x80, 0xF0, 0x80, 0xF0, 0xF0, 0x80, 0xF0, 0x80, 0x80]"
  by (simp add: font_rows_def)

text \<open>
  Claim C4 (the code differs). The initialiser in \<^verbatim>\<open>loadFont\<close> lists 14 glyphs, 70 bytes:
  the rows for the digits \<open>A\<close> and \<open>B\<close> are missing, so the rows the source labels
  \<open>C\<close> to \<open>F\<close> stand where \<open>A\<close> to \<open>D\<close> belong. With \<open>0xA\<close> in \<open>V[X]\<close> the
  font-pointer instruction \<^verbatim>\<open>0xFX29\<close> sets \<^verbatim>\<open>indexRegister\<close> to 50, where the memory
  holds the row labelled \<open>C\<close>; with \<open>0xE\<close> it sets it to 70, where the memory holds
  zeros. The instruction leaves the memory as initialisation made it.
\<close>

theorem font_table_misses_two_glyphs:
  "length font_rows = 14 \<and> length (concat font_rows) = 70 \<and>
   map_sum id indexRegister (emulateInstruction 0 font_digit_A_machine) = Inr 50 \<and>
   map_sum id ram (emulateInstruction 0 font_digit_A_machine) = Inr (ram font_digit_A_machine) \<and>
   take 5 (drop 50 (ram font_digit_A_machine)) = [0xF0, 0x80, 0x80, 0x80, 0xF0] \<and>
   map_sum id indexRegister (emulateInstruction 0 font_digit_E_machine) = Inr 70 \<and>
   map_sum id ram (emulateInstruction 0 font_digit_E_machine) = Inr (ram font_digit_E_machine) \<and>
   take 5 (drop 70 (ram font_digit_E_machine)) = [0, 0, 0, 0, 0]"
proof -
  have rows: "length font_rows = 14 \<and> length (concat font_rows) = 70"
    by (simp add: font_bytes) (simp add: font_rows_def)
  have runA: "map_sum id indexRegister (emulateInstruction 0 font_digit_A_machine) = Inr 50 \<and>
   map_sum id ram (emulateInstruction 0 font_digit_A_machine) = Inr (ram font_digit_A_machine)"
    by (simp add: font_digit_A_machine_def emulateInstruction_def font_pointer_fetch
        emulateInstruction_switch_def op_F_def Vx_def replicate16)
  have runE: "map_sum id indexRegister (emulateInstruction 0 font_digit_E_machine) = Inr 70 \<and>
   map_sum id ram (emulateInstruction 0 font_digit_E_machine) = Inr (ram font_digit_E_machine)"
    by (simp add: font_digit_E_machine_def emulateInstruction_def font_pointer_fetch
        emulateInstruction_switch_def op_F_def Vx_def replicate16)
  have ramA: "take 5 (drop 50 (ram font_digit_A_machine)) = [0xF0, 0x80, 0x80, 0x80, 0xF0]"
    by (simp add: font_digit_A_machine_def boot_ram font_def font_bytes)
  have ramE: "take 5 (drop 70 (ram font_digit_E_machine)) = [0, 0, 0, 0, 0]"
    by (simp add: font_digit_E_machine_def boot_ram font_def font_bytes FONT_SIZE_def numeral_eq_Suc)
  show ?thesis using rows runA runE ramA ramE by simp
qed

section \<open>Memory addresses\<close>

lemma setV_frame:
  "indexRegister (setV r v c) = indexRegister c" "instruction (setV r v c) = instruction c"
  "ram (setV r v c) = ram c" "frameBuffer (setV r v c) = frameBuffer c"
  by (simp_all add: setV_def)

lemma draw_bits_frame:
  "indexRegister (draw_bits sb dy j dx c) = indexRegister c \<and>
   instruction (draw_bits sb dy j dx c) = instruction c \<and>
   ram (draw_bits sb dy j dx c) = ram c"
  by (induction sb dy j dx c rule: draw_bits.induct) (simp_all add: Let_def setV_frame)

lemma draw_rows_ram_error:
  "draw_rows x i dy c = Inl e \<Longrightarrow>
   e = RamOutOfBounds \<and> RAM_SIZE < unat (indexRegister c) + unat (ins_n (instruction c))"
proof (induction x i dy c rule: draw_rows.induct)
  case (1 x i dy c)
  show ?case
  proof (cases "i < unat (ins_n (instruction c))")
    case False
    with "1.prems" show ?thesis by (simp add: draw_rows.simps [of x i dy c])
  next
    case more: True
    show ?thesis
    proof (cases "unat (indexRegister c) + i < RAM_SIZE")
      case False
      with more "1.prems" show ?thesis
        by (simp add: draw_rows.simps [of x i dy c] ram_read_def)
    next
      case True
      let ?sb = "ram c ! (unat (indexRegister c) + i)"
      let ?c1 = "draw_bits ?sb dy 7 x c"
      have rd: "ram_read c (unat (indexRegister c) + i) = Inr ?sb"
        using True by (simp add: ram_read_def)
      have cont: "\<not> WINDOW_HEIGHT \<le> unat (dy + 1)"
        and rec: "draw_rows x (i + 1) (dy + 1) ?c1 = Inl e"
        using more rd "1.prems"
        by (auto simp: draw_rows.simps [of x i dy c] Let_def split: if_splits)
      from "1.IH" [OF more rd refl refl cont rec] show ?thesis
        by (simp add: draw_bits_frame)
    qed
  qed
qed

lemma store_regs_ram_error:
  "store_regs i c = Inl e \<Longrightarrow>
   e = RamOutOfBounds \<and> RAM_SIZE \<le> unat (indexRegister c) + unat (ins_x (instruction c))"
proof (induction i c rule: store_regs.induct)
  case (1 i c)
  show ?case
  proof (cases "i \<le> unat (ins_x (instruction c))")
    case False
    with "1.prems" show ?thesis by (simp add: store_regs.simps [of i c])
  next
    case more: True
    show ?thesis
    proof (cases "unat (indexRegister c) + i < RAM_SIZE")
      case False
      with more "1.prems" show ?thesis
        by (simp add: store_regs.simps [of i c] ram_write_def)
    next
      case True
      let ?c1 = "c\<lparr>ram := (ram c)[unat (indexRegister c) + i := V c ! i]\<rparr>"
      have wr: "ram_write c (unat (indexRegister c) + i) (V c ! i) = Inr ?c1"
        using True by (simp add: ram_write_def)
      have rec: "store_regs (i + 1) ?c1 = Inl e"
        using more wr "1.prems" by (simp add: store_regs.simps [of i c])
      from "1.IH" [OF more wr rec] show ?thesis by simp
    qed
  qed
qed

lemma load_regs_ram_error:
  "load_regs i c = Inl e \<Longrightarrow>
   e = RamOutOfBounds \<and> RAM_SIZE \<le> unat (indexRegister c) + unat (ins_x (instruction c))"
proof (induction i c rule: load_regs.induct)
  case (1 i c)
  show ?case
  proof (cases "i \<le> unat (ins_x (instruction c))")
    case False
    with "1.prems" show ?thesis by (simp add: load_regs.simps [of i c])
  next
    case more: True
    show ?thesis
    proof (cases "unat (indexRegister c) + i < RAM_SIZE")
      case False
      with more "1.prems" show ?thesis
        by (simp add: load_regs.simps [of i c] ram_read_def)
    next
      case True
      let ?v = "ram c ! (unat (indexRegister c) + i)"
      have rd: "ram_read c (unat (indexRegister c) + i) = Inr ?v"
        using True by (simp add: ram_read_def)
      have rec: "load_regs (i + 1) (setV i ?v c) = Inl e"
        using more rd "1.prems" by (simp add: load_regs.simps [of i c])
      from "1.IH" [OF more rd rec] show ?thesis by (simp add: setV_frame)
    qed
  qed
qed

lemma op_FX33_ram_error:
  "op_FX33 c = Inl e \<Longrightarrow> e = RamOutOfBounds \<and> RAM_SIZE \<le> unat (indexRegister c) + 2"
  by (auto simp: op_FX33_def ram_write_def Let_def split: if_splits)

lemma op_D_ram_error:
  "op_D c = Inl e \<Longrightarrow>
   e = RamOutOfBounds \<and> RAM_SIZE < unat (indexRegister c) + unat (ins_n (instruction c))"
  using draw_rows_ram_error [of "Vx c mod of_nat WINDOW_WIDTH" 0 "Vy c mod of_nat WINDOW_HEIGHT"
      "setV 0xF 0 c" e]
  by (auto simp: op_D_def Let_def setV_frame split: sum.splits)

lemma op_F_ram_error:
  assumes "op_F c = Inl RamOutOfBounds"
  shows "RAM_SIZE \<le> unat (indexRegister c) + unat (ins_x (instruction c)) \<or>
         RAM_SIZE \<le> unat (indexRegister c) + 2"
  using assms store_regs_ram_error [of 0 c RamOutOfBounds]
    load_regs_ram_error [of 0 c RamOutOfBounds] op_FX33_ram_error [of c RamOutOfBounds]
  by (auto simp: op_F_def Let_def op_FX0A_def keypad_read_def split: if_splits option.splits)

lemma switch_ram_error:
  assumes "emulateInstruction_switch rnd c = Inl RamOutOfBounds"
    and "unat (ins_x (instruction c)) < 16" and "unat (ins_n (instruction c)) < 16"
  shows "RAM_SIZE \<le> unat (indexRegister c) + 15"
proof -
  have "op_0 c \<noteq> Inl RamOutOfBounds" by (simp add: op_0_def)
  moreover have "op_2 c \<noteq> Inl RamOutOfBounds" by (simp add: op_2_def)
  moreover have "op_E c \<noteq> Inl RamOutOfBounds"
    by (simp add: op_E_def keypad_read_def Let_def)
  moreover have "op_D c = Inl RamOutOfBounds \<Longrightarrow> ?thesis"
    using op_D_ram_error [of c RamOutOfBounds] assms(3) by simp
  moreover have "op_F c = Inl RamOutOfBounds \<Longrightarrow> ?thesis"
    using op_F_ram_error [of c] assms(2) by auto
  ultimately show ?thesis
    using assms(1)
    by (simp add: emulateInstruction_switch_def Let_def split: if_splits)
qed


lemma nextInstruction_error:
  "nextInstruction c = Inl e \<longleftrightarrow>
     e = RamOutOfBounds \<and> RAM_SIZE \<le> unat (programCounter c) + 1"
  by (auto simp: nextInstruction_def ram_read_def Let_def)

lemma jump_to_last_byte_run: "cycles [0, 0] (boot jump_to_last_byte) = Inl RamOutOfBounds"
proof -
  define c1 where "c1 = (boot jump_to_last_byte)\<lparr>programCounter := 0xFFF,
      instruction := \<lparr>ins_raw = 0x1FFF, ins_nnn = 0xFFF, ins_n = 0xF, ins_x = 0xF, ins_y = 0xF,
                      ins_kk = 0xFF\<rparr>\<rparr>"
  have s1: "emulateInstruction 0 (boot jump_to_last_byte) = Inr c1"
    by (simp add: emulateInstruction_def fetch_at boot_fields boot_ram_first RAM_SIZE_def
        emulateInstruction_switch_def c1_def jump_to_last_byte_def)
  have s2: "emulateInstruction 0 c1 = Inl RamOutOfBounds"
    by (simp add: emulateInstruction_def nextInstruction_def ram_read_def RAM_SIZE_def c1_def)
  show ?thesis by (simp add: s1 s2)
qed

lemma bcd_at_0xFFE_run: "cycles [0, 0] (boot bcd_at_0xFFE) = Inl RamOutOfBounds"
proof -
  define c1 where "c1 = (boot bcd_at_0xFFE)\<lparr>programCounter := 0x202,
      instruction := \<lparr>ins_raw = 0xAFFE, ins_nnn = 0xFFE, ins_n = 0xE, ins_x = 0xF, ins_y = 0xF,
                      ins_kk = 0xFE\<rparr>, indexRegister := 0xFFE\<rparr>"
  have s1: "emulateInstruction 0 (boot bcd_at_0xFFE) = Inr c1"
    by (simp add: emulateInstruction_def fetch_at boot_fields boot_ram_first RAM_SIZE_def
        emulateInstruction_switch_def c1_def bcd_at_0xFFE_def)
  have ram: "ram c1 ! 0x202 = 0xF0" "ram c1 ! 0x203 = 0x33"
    using boot_ram_rom [of 2 bcd_at_0xFFE] boot_ram_rom [of 3 bcd_at_0xFFE]
    by (simp_all add: c1_def bcd_at_0xFFE_def)
  have pc: "programCounter c1 = 0x202" "indexRegister c1 = 0xFFE" by (simp_all add: c1_def)
  have s2: "emulateInstruction 0 c1 = Inl RamOutOfBounds"
    using ram pc
    by (simp add: emulateInstruction_def fetch_at RAM_SIZE_def emulateInstruction_switch_def
        op_F_def op_FX33_def ram_write_def)
  show ?thesis by (simp add: s1 s2)
qed

lemma sprite_at_0xFFF_run: "cycles [0, 0] (boot sprite_at_0xFFF) = Inl RamOutOfBounds"
proof -
  define c1 where "c1 = (boot sprite_at_0xFFF)\<lparr>programCounter := 0x202,
      instruction := \<lparr>ins_raw = 0xAFFF, ins_nnn = 0xFFF, ins_n = 0xF, ins_x = 0xF, ins_y = 0xF,
                      ins_kk = 0xFF\<rparr>, indexRegister := 0xFFF\<rparr>"
  have s1: "emulateInstruction 0 (boot sprite_at_0xFFF) = Inr c1"
    by (simp add: emulateInstruction_def fetch_at boot_fields boot_ram_first RAM_SIZE_def
        emulateInstruction_switch_def c1_def sprite_at_0xFFF_def)
  have ram: "ram c1 ! 0x202 = 0xD0" "ram c1 ! 0x203 = 0x02"
    using boot_ram_rom [of 2 sprite_at_0xFFF] boot_ram_rom [of 3 sprite_at_0xFFF]
    by (simp_all add: c1_def sprite_at_0xFFF_def)
  have pc: "programCounter c1 = 0x202" "indexRegister c1 = 0xFFF" "V c1 = replicate 16 0"
    by (simp_all add: c1_def boot_fields)
  define c2 where "c2 = c1\<lparr>programCounter := 0x204,
      instruction := \<lparr>ins_raw = 0xD002, ins_nnn = 0x002, ins_n = 2, ins_x = 0, ins_y = 0,
                      ins_kk = 0x02\<rparr>\<rparr>"
  have f2: "nextInstruction c1 = Inr c2"
    using ram pc by (simp add: fetch_at RAM_SIZE_def c2_def)
  have n2: "ins_n (instruction c2) = 2" "indexRegister c2 = 0xFFF"
    by (simp_all add: c2_def pc)
  have "draw_rows x (Suc 0) dy c = Inl RamOutOfBounds"
    if "ins_n (instruction c) = 2" "indexRegister c = 0xFFF" for x dy c
    using that by (simp add: draw_rows.simps [of x "Suc 0" dy c] ram_read_def RAM_SIZE_def)
  then have "draw_rows x 0 0 c = Inl RamOutOfBounds"
    if "ins_n (instruction c) = 2" "indexRegister c = 0xFFF" for x c
    using that
    by (simp add: draw_rows.simps [of x 0 0 c] ram_read_def RAM_SIZE_def Let_def
        WINDOW_HEIGHT_def draw_bits_frame)
  then have "op_D c2 = Inl RamOutOfBounds"
    using n2 pc
    by (simp add: op_D_def Let_def Vx_def Vy_def c2_def setV_frame replicate16
        WINDOW_HEIGHT_def)
  then have s2: "emulateInstruction 0 c1 = Inl RamOutOfBounds"
    using f2 by (simp add: emulateInstruction_def emulateInstruction_switch_def c2_def)
  show ?thesis by (simp add: s1 s2)
qed

lemma store_regs_fault:
  "i \<le> unat (ins_x (instruction c)) \<Longrightarrow>
   RAM_SIZE \<le> unat (indexRegister c) + unat (ins_x (instruction c)) \<Longrightarrow>
   store_regs i c = Inl RamOutOfBounds"
proof (induction i c rule: store_regs.induct)
  case (1 i c)
  show ?case
  proof (cases "unat (indexRegister c) + i < RAM_SIZE")
    case False
    with "1.prems" show ?thesis
      by (simp add: store_regs.simps [of i c] ram_write_def)
  next
    case True
    let ?c1 = "c\<lparr>ram := (ram c)[unat (indexRegister c) + i := V c ! i]\<rparr>"
    have wr: "ram_write c (unat (indexRegister c) + i) (V c ! i) = Inr ?c1"
      using True by (simp add: ram_write_def)
    have next_i: "i + 1 \<le> unat (ins_x (instruction ?c1))"
      using True "1.prems" by simp
    have "store_regs (i + 1) ?c1 = Inl RamOutOfBounds"
      using "1.IH" [OF "1.prems"(1) wr next_i] "1.prems"(2) by simp
    then show ?thesis
      using "1.prems"(1) wr by (simp add: store_regs.simps [of i c])
  qed
qed

lemma load_regs_fault:
  "i \<le> unat (ins_x (instruction c)) \<Longrightarrow>
   RAM_SIZE \<le> unat (indexRegister c) + unat (ins_x (instruction c)) \<Longrightarrow>
   load_regs i c = Inl RamOutOfBounds"
proof (induction i c rule: load_regs.induct)
  case (1 i c)
  show ?case
  proof (cases "unat (indexRegister c) + i < RAM_SIZE")
    case False
    with "1.prems" show ?thesis
      by (simp add: load_regs.simps [of i c] ram_read_def)
  next
    case True
    let ?v = "ram c ! (unat (indexRegister c) + i)"
    have rd: "ram_read c (unat (indexRegister c) + i) = Inr ?v"
      using True by (simp add: ram_read_def)
    have next_i: "i + 1 \<le> unat (ins_x (instruction (setV i ?v c)))"
      using True "1.prems" by (simp add: setV_frame)
    have "load_regs (i + 1) (setV i ?v c) = Inl RamOutOfBounds"
      using "1.IH" [OF "1.prems"(1) rd next_i] "1.prems"(2) by (simp add: setV_frame)
    then show ?thesis
      using "1.prems"(1) rd by (simp add: load_regs.simps [of i c])
  qed
qed

lemma op_FX33_fault:
  "op_FX33 c = Inl RamOutOfBounds \<longleftrightarrow> RAM_SIZE \<le> unat (indexRegister c) + 2"
  by (auto simp: op_FX33_def ram_write_def Let_def)

lemma u8_succ_below:
  fixes dy :: u8
  shows "unat dy < 32 \<Longrightarrow> unat (dy + 1) = unat dy + 1"
  by (simp add: unat_word_ariths)

lemma draw_rows_fault:
  "unat dy < WINDOW_HEIGHT \<Longrightarrow>
   draw_rows x i dy c = Inl RamOutOfBounds \<longleftrightarrow>
     i < unat (ins_n (instruction c)) \<and>
     RAM_SIZE < unat (indexRegister c)
                 + min (unat (ins_n (instruction c))) (i + (WINDOW_HEIGHT - unat dy))"
proof (induction x i dy c rule: draw_rows.induct)
  case (1 x i dy c)
  let ?n = "unat (ins_n (instruction c))" and ?I = "unat (indexRegister c)"
  have dy: "unat dy < 32" using "1.prems" by (simp add: WINDOW_HEIGHT_def)
  show ?case
  proof (cases "i < ?n")
    case False
    then show ?thesis by (simp add: draw_rows.simps [of x i dy c])
  next
    case more: True
    show ?thesis
    proof (cases "?I + i < RAM_SIZE")
      case False
      then show ?thesis using more dy
        by (simp add: draw_rows.simps [of x i dy c] ram_read_def WINDOW_HEIGHT_def)
    next
      case True
      let ?sb = "ram c ! (?I + i)"
      let ?c1 = "draw_bits ?sb dy 7 x c"
      have rd: "ram_read c (?I + i) = Inr ?sb" using True by (simp add: ram_read_def)
      have step: "draw_rows x i dy c =
          (if unat (dy + 1) \<ge> WINDOW_HEIGHT then Inr ?c1
           else draw_rows x (i + 1) (dy + 1) ?c1)"
        using more rd by (simp add: draw_rows.simps [of x i dy c] Let_def)
      show ?thesis
      proof (cases "unat (dy + 1) \<ge> WINDOW_HEIGHT")
        case last: True
        then have "unat dy = 31" using dy by (simp add: u8_succ_below WINDOW_HEIGHT_def)
        then show ?thesis using last more True
          by (simp add: step WINDOW_HEIGHT_def)
      next
        case False
        then have below: "unat (dy + 1) < WINDOW_HEIGHT" by simp
        have "draw_rows x (i + 1) (dy + 1) ?c1 = Inl RamOutOfBounds \<longleftrightarrow>
              i + 1 < ?n \<and> RAM_SIZE < ?I + min ?n (i + 1 + (WINDOW_HEIGHT - unat (dy + 1)))"
          using "1.IH" [OF more rd refl refl False below] by (simp add: draw_bits_frame)
        then show ?thesis using False more True dy
          by (simp add: step u8_succ_below WINDOW_HEIGHT_def) (auto simp: min_def)
      qed
    qed
  qed
qed


lemma op_D_fault:
  "op_D c = Inl RamOutOfBounds \<longleftrightarrow>
     0 < min (unat (ins_n (instruction c)))
             (WINDOW_HEIGHT - unat (Vy c mod of_nat WINDOW_HEIGHT)) \<and>
     RAM_SIZE < unat (indexRegister c)
                 + min (unat (ins_n (instruction c)))
                       (WINDOW_HEIGHT - unat (Vy c mod of_nat WINDOW_HEIGHT))"
proof -
  let ?dy = "Vy c mod of_nat WINDOW_HEIGHT"
  have "?dy < 32" by (simp add: WINDOW_HEIGHT_def word_mod_less_divisor)
  then have dy: "unat ?dy < WINDOW_HEIGHT"
    by (simp add: WINDOW_HEIGHT_def word_less_nat_alt)
  have "op_D c = Inl RamOutOfBounds \<longleftrightarrow>
        draw_rows (Vx c mod of_nat WINDOW_WIDTH) 0 ?dy (setV 0xF 0 c) = Inl RamOutOfBounds"
    by (auto simp: op_D_def Let_def split: sum.splits)
  then show ?thesis
    using dy draw_rows_fault [OF dy, of "Vx c mod of_nat WINDOW_WIDTH" 0 "setV 0xF 0 c"]
    by (auto simp: setV_frame)
qed

lemma op_F_fault:
  "op_F c = Inl RamOutOfBounds \<longleftrightarrow>
     (ins_kk (instruction c) = 0x33 \<and> RAM_SIZE \<le> unat (indexRegister c) + 2) \<or>
     ((ins_kk (instruction c) = 0x55 \<or> ins_kk (instruction c) = 0x65) \<and>
      RAM_SIZE \<le> unat (indexRegister c) + unat (ins_x (instruction c)))"
proof -
  have key: "op_FX0A c \<noteq> Inl RamOutOfBounds"
    by (auto simp: op_FX0A_def keypad_read_def Let_def split: option.splits)
  have st: "store_regs 0 c = Inl RamOutOfBounds \<longleftrightarrow>
      RAM_SIZE \<le> unat (indexRegister c) + unat (ins_x (instruction c))"
    using store_regs_fault [of 0 c] store_regs_ram_error [of 0 c RamOutOfBounds] by auto
  have ld: "load_regs 0 c = Inl RamOutOfBounds \<longleftrightarrow>
      RAM_SIZE \<le> unat (indexRegister c) + unat (ins_x (instruction c))"
    using load_regs_fault [of 0 c] load_regs_ram_error [of 0 c RamOutOfBounds] by auto
  show ?thesis
    by (simp add: op_F_def Let_def key st ld op_FX33_fault)
qed

lemma switch_fault:
  "emulateInstruction_switch rnd c = Inl RamOutOfBounds \<longleftrightarrow>
     (drop_bit 12 (ins_raw (instruction c)) = 0xD \<and> op_D c = Inl RamOutOfBounds) \<or>
     (drop_bit 12 (ins_raw (instruction c)) = 0xF \<and> op_F c = Inl RamOutOfBounds)"
proof -
  have "op_0 c \<noteq> Inl RamOutOfBounds" by (simp add: op_0_def)
  moreover have "op_2 c \<noteq> Inl RamOutOfBounds" by (simp add: op_2_def)
  moreover have "op_E c \<noteq> Inl RamOutOfBounds"
    by (simp add: op_E_def keypad_read_def Let_def)
  ultimately show ?thesis
    by (simp add: emulateInstruction_switch_def Let_def)
qed

text \<open>
  Claim C5, as amended. No address is masked or wrapped: the fetch and the instructions
  index \<^verbatim>\<open>ram\<close> with \<^verbatim>\<open>programCounter\<close>, \<^verbatim>\<open>programCounter + 1\<close> and
  \<^verbatim>\<open>indexRegister + i\<close> as computed. The fetch is outside the 4096 bytes of memory
  exactly when \<^verbatim>\<open>programCounter + 1\<close> is \<^verbatim>\<open>0x1000\<close> or more. After a fetch that
  returned, the instruction accesses the memory out of range in exactly three cases:
  a sprite draw \<^verbatim>\<open>0xDXYN\<close> that reads \<open>r = min N (32 - V[Y] mod 32)\<close> rows, with
  \<open>r > 0\<close> and \<^verbatim>\<open>indexRegister + r\<close> above \<^verbatim>\<open>0x1000\<close>; the BCD store \<^verbatim>\<open>0xFX33\<close> with
  \<^verbatim>\<open>indexRegister + 2\<close> at \<^verbatim>\<open>0x1000\<close> or more; a register-block transfer \<^verbatim>\<open>0xFX55\<close> or
  \<^verbatim>\<open>0xFX65\<close> with \<^verbatim>\<open>indexRegister + X\<close> at \<^verbatim>\<open>0x1000\<close> or more. In particular, where
  \<^verbatim>\<open>programCounter + 1\<close> and \<^verbatim>\<open>indexRegister + 15\<close> are both below \<^verbatim>\<open>0x1000\<close>, no access
  of the cycle is outside the memory.
\<close>

theorem ram_access_unmasked:
  "(nextInstruction c = Inl RamOutOfBounds \<longleftrightarrow> RAM_SIZE \<le> unat (programCounter c) + 1) \<and>
   (nextInstruction c = Inr c1 \<longrightarrow>
      (emulateInstruction rnd c = Inl RamOutOfBounds \<longleftrightarrow>
         (drop_bit 12 (ins_raw (instruction c1)) = 0xD \<and>
          0 < min (unat (ins_n (instruction c1)))
                  (WINDOW_HEIGHT
                    - unat (V c ! unat (ins_y (instruction c1)) mod of_nat WINDOW_HEIGHT)) \<and>
          RAM_SIZE < unat (indexRegister c)
                      + min (unat (ins_n (instruction c1)))
                            (WINDOW_HEIGHT
                              - unat (V c ! unat (ins_y (instruction c1))
                                        mod of_nat WINDOW_HEIGHT))) \<or>
         (drop_bit 12 (ins_raw (instruction c1)) = 0xF \<and> ins_kk (instruction c1) = 0x33 \<and>
          RAM_SIZE \<le> unat (indexRegister c) + 2) \<or>
         (drop_bit 12 (ins_raw (instruction c1)) = 0xF \<and>
          (ins_kk (instruction c1) = 0x55 \<or> ins_kk (instruction c1) = 0x65) \<and>
          RAM_SIZE \<le> unat (indexRegister c) + unat (ins_x (instruction c1))))) \<and>
   (unat (programCounter c) + 1 < RAM_SIZE \<and> unat (indexRegister c) + 15 < RAM_SIZE
      \<longrightarrow> emulateInstruction rnd c \<noteq> Inl RamOutOfBounds)"
proof -
  have exact: "emulateInstruction rnd c = Inl RamOutOfBounds \<longleftrightarrow>
         (drop_bit 12 (ins_raw (instruction c1)) = 0xD \<and>
          0 < min (unat (ins_n (instruction c1)))
                  (WINDOW_HEIGHT
                    - unat (V c ! unat (ins_y (instruction c1)) mod of_nat WINDOW_HEIGHT)) \<and>
          RAM_SIZE < unat (indexRegister c)
                      + min (unat (ins_n (instruction c1)))
                            (WINDOW_HEIGHT
                              - unat (V c ! unat (ins_y (instruction c1))
                                        mod of_nat WINDOW_HEIGHT))) \<or>
         (drop_bit 12 (ins_raw (instruction c1)) = 0xF \<and> ins_kk (instruction c1) = 0x33 \<and>
          RAM_SIZE \<le> unat (indexRegister c) + 2) \<or>
         (drop_bit 12 (ins_raw (instruction c1)) = 0xF \<and>
          (ins_kk (instruction c1) = 0x55 \<or> ins_kk (instruction c1) = 0x65) \<and>
          RAM_SIZE \<le> unat (indexRegister c) + unat (ins_x (instruction c1)))"
    if fetch: "nextInstruction c = Inr c1"
  proof -
    have "emulateInstruction rnd c = emulateInstruction_switch rnd c1"
      using fetch by (simp add: emulateInstruction_def)
    moreover have "Vy c1 = V c ! unat (ins_y (instruction c1))"
      "indexRegister c1 = indexRegister c"
      using fetch by (simp_all add: Vy_def nextInstruction_frame)
    ultimately show ?thesis
      by (simp only: switch_fault op_D_fault op_F_fault) blast
  qed
  have "emulateInstruction rnd c \<noteq> Inl RamOutOfBounds"
    if pc: "unat (programCounter c) + 1 < RAM_SIZE"
      and ix: "unat (indexRegister c) + 15 < RAM_SIZE"
  proof
    assume err: "emulateInstruction rnd c = Inl RamOutOfBounds"
    from pc obtain c1 where fetch: "nextInstruction c = Inr c1"
      by (simp add: fetch_at)
    have "emulateInstruction_switch rnd c1 = Inl RamOutOfBounds"
      using err fetch by (simp add: emulateInstruction_def)
    then have "RAM_SIZE \<le> unat (indexRegister c1) + 15"
      using nextInstruction_nibbles [OF fetch] by (simp add: switch_ram_error)
    then show False using ix fetch by (simp add: nextInstruction_frame)
  qed
  then show ?thesis using exact by (simp add: nextInstruction_error)
qed

text \<open>The BCD store with \<^verbatim>\<open>indexRegister\<close> at \<^verbatim>\<open>0xFF0\<close> stays inside the memory; the
  block store with \<^verbatim>\<open>indexRegister\<close> at \<^verbatim>\<open>0x1000\<close> does not (a wrapped address would
  be 0).\<close>

theorem ram_access_unmasked_witness:
  "unat (programCounter bcd_at_0xFF0_machine) + 1 < RAM_SIZE \<and>
   unat (indexRegister bcd_at_0xFF0_machine) + 15 < RAM_SIZE \<and>
   nextInstruction bcd_at_0xFF0_machine \<noteq> Inl RamOutOfBounds \<and>
   emulateInstruction 0 bcd_at_0xFF0_machine \<noteq> Inl RamOutOfBounds \<and>
   nextInstruction store_at_0x1000_machine =
     Inr (store_at_0x1000_machine\<lparr>programCounter := 0x202,
            instruction := \<lparr>ins_raw = 0xF055, ins_nnn = 0x055, ins_n = 5, ins_x = 0,
                            ins_y = 5, ins_kk = 0x55\<rparr>\<rparr>) \<and>
   emulateInstruction 0 store_at_0x1000_machine = Inl RamOutOfBounds"
proof -
  let ?c1 = "store_at_0x1000_machine\<lparr>programCounter := 0x202,
            instruction := \<lparr>ins_raw = 0xF055, ins_nnn = 0x055, ins_n = 5, ins_x = 0,
                            ins_y = 5, ins_kk = 0x55\<rparr>\<rparr>"
  have fetch: "nextInstruction store_at_0x1000_machine = Inr ?c1"
    by (simp add: store_at_0x1000_machine_def fetch_at boot_fields boot_ram_first RAM_SIZE_def)
  have "emulateInstruction 0 store_at_0x1000_machine = Inl RamOutOfBounds"
    using ram_access_unmasked [of store_at_0x1000_machine ?c1 0] fetch
    by (simp add: store_at_0x1000_machine_def RAM_SIZE_def)
  then show ?thesis
    using fetch ram_access_unmasked [of bcd_at_0xFF0_machine c1 0 for c1]
    by (simp add: bcd_at_0xFF0_machine_def boot_fields RAM_SIZE_def)
qed

lemma index_past_memory_run:
  "cycles [0, 0, 0, 0] (boot index_past_memory) = Inl RamOutOfBounds"
proof -
  have ram: "ram (boot index_past_memory) ! 0x200 = 0xAF"
    "ram (boot index_past_memory) ! 0x201 = 0xFF" "ram (boot index_past_memory) ! 0x202 = 0x60"
    "ram (boot index_past_memory) ! 0x203 = 0x01" "ram (boot index_past_memory) ! 0x204 = 0xF0"
    "ram (boot index_past_memory) ! 0x205 = 0x1E" "ram (boot index_past_memory) ! 0x206 = 0xF0"
    "ram (boot index_past_memory) ! 0x207 = 0x55"
    using boot_ram_rom [of 0 index_past_memory] boot_ram_rom [of 1 index_past_memory]
      boot_ram_rom [of 2 index_past_memory] boot_ram_rom [of 3 index_past_memory]
      boot_ram_rom [of 4 index_past_memory] boot_ram_rom [of 5 index_past_memory]
      boot_ram_rom [of 6 index_past_memory] boot_ram_rom [of 7 index_past_memory]
    by (simp_all add: index_past_memory_def)
  define c1 where "c1 = (boot index_past_memory)\<lparr>programCounter := 0x202,
      instruction := \<lparr>ins_raw = 0xAFFF, ins_nnn = 0xFFF, ins_n = 0xF, ins_x = 0xF, ins_y = 0xF,
                      ins_kk = 0xFF\<rparr>, indexRegister := 0xFFF\<rparr>"
  have s1: "emulateInstruction 0 (boot index_past_memory) = Inr c1"
    using ram
    by (simp add: emulateInstruction_def fetch_at boot_fields RAM_SIZE_def
        emulateInstruction_switch_def c1_def)
  define c2 where "c2 = c1\<lparr>programCounter := 0x204,
      instruction := \<lparr>ins_raw = 0x6001, ins_nnn = 0x001, ins_n = 1, ins_x = 0, ins_y = 0,
                      ins_kk = 0x01\<rparr>,
      V := [1, 0, 0, 0, 0, 0, 0, 0, 0, 0, 0, 0, 0, 0, 0, 0]\<rparr>"
  have s2: "emulateInstruction 0 c1 = Inr c2"
    using ram
    by (simp add: emulateInstruction_def fetch_at boot_fields RAM_SIZE_def
        emulateInstruction_switch_def setVx_def setV_def replicate16 c1_def c2_def)
  define c3 where "c3 = c2\<lparr>programCounter := 0x206,
      instruction := \<lparr>ins_raw = 0xF01E, ins_nnn = 0x01E, ins_n = 0xE, ins_x = 0, ins_y = 1,
                      ins_kk = 0x1E\<rparr>, indexRegister := 0x1000\<rparr>"
  have s3: "emulateInstruction 0 c2 = Inr c3"
    using ram
    by (simp add: emulateInstruction_def fetch_at boot_fields RAM_SIZE_def
        emulateInstruction_switch_def op_F_def Vx_def c1_def c2_def c3_def)
  have s4: "emulateInstruction 0 c3 = Inl RamOutOfBounds"
    using ram
    by (simp add: emulateInstruction_def fetch_at boot_fields RAM_SIZE_def
        emulateInstruction_switch_def op_F_def store_regs.simps [of 0] ram_write_def
        c1_def c2_def c3_def)
  show ?thesis by (simp add: s1 s2 s3 s4)
qed

text \<open>The claim as stated fails: after a jump to \<^verbatim>\<open>0xFFF\<close> the fetch reads
  \<^verbatim>\<open>ram[0x1000]\<close>; the BCD store at \<^verbatim>\<open>0xFFE\<close> writes \<^verbatim>\<open>ram[0x1000]\<close>; the second byte
  of a sprite at \<^verbatim>\<open>0xFFF\<close> is read from \<^verbatim>\<open>ram[0x1000]\<close>; the block store with
  \<^verbatim>\<open>indexRegister\<close> raised to \<^verbatim>\<open>0x1000\<close> writes \<^verbatim>\<open>ram[0x1000]\<close>.\<close>

theorem ram_access_out_of_range_counterexample:
  "cycles [0, 0] (boot jump_to_last_byte) = Inl RamOutOfBounds \<and>
   cycles [0, 0] (boot bcd_at_0xFFE) = Inl RamOutOfBounds \<and>
   cycles [0, 0] (boot sprite_at_0xFFF) = Inl RamOutOfBounds \<and>
   cycles [0, 0, 0, 0] (boot index_past_memory) = Inl RamOutOfBounds"
  by (simp only: jump_to_last_byte_run bcd_at_0xFFE_run sprite_at_0xFFF_run
      index_past_memory_run simp_thms)

section \<open>Sprite drawing\<close>

lemma draw_bits_length:
  "length (frameBuffer (draw_bits sb dy j dx c)) = length (frameBuffer c)"
  by (induction j arbitrary: dx c) (simp_all add: Let_def setV_frame)

lemma draw_bits_nth:
  "k < length (frameBuffer c) \<Longrightarrow>
   frameBuffer (draw_bits sb dy j dx c) ! k = frameBuffer c ! k XOR bits_mask sb dy j dx k"
proof (induction j arbitrary: dx c)
  case 0
  then show ?case by simp
next
  case (Suc j)
  let ?bit = "sb AND push_bit (Suc j) 1"
  let ?at = "unat dy * WINDOW_WIDTH + unat dx"
  let ?c1 = "if ?bit \<noteq> 0 \<and> frameBuffer c ! ?at \<noteq> 0
             then setV 0xF (bool_u8 (?bit \<noteq> 0 \<and> frameBuffer c ! ?at \<noteq> 0)) c else c"
  let ?c2 = "?c1\<lparr>frameBuffer := (frameBuffer ?c1)[?at := frameBuffer c ! ?at XOR ?bit]\<rparr>"
  have fb1: "frameBuffer ?c1 = frameBuffer c" by (simp add: setV_frame)
  have step: "draw_bits sb dy (Suc j) dx c =
      (if unat (dx + 1) \<ge> WINDOW_WIDTH then ?c2 else draw_bits sb dy j (dx + 1) ?c2)"
    by (simp add: Let_def)
  have fb2: "frameBuffer ?c2 ! k = frameBuffer c ! k XOR (if k = ?at then ?bit else 0)"
    using Suc.prems by (simp add: setV_frame nth_list_update)
  have len2: "k < length (frameBuffer ?c2)" using Suc.prems by (simp add: setV_frame)
  show ?case
  proof (cases "unat (dx + 1) \<ge> WINDOW_WIDTH")
    case True
    then show ?thesis using fb2 by (simp only: step bits_mask.simps if_True) simp
  next
    case False
    have "frameBuffer (draw_bits sb dy j (dx + 1) ?c2) ! k
            = frameBuffer ?c2 ! k XOR bits_mask sb dy j (dx + 1) k"
      by (rule Suc.IH [OF len2])
    then show ?thesis using False fb2
      by (simp only: step bits_mask.simps if_False) (simp add: xor.assoc)
  qed
qed


lemma draw_bits_same_sprite: "same_sprite (draw_bits sb dy j dx c) c"
  by (simp add: same_sprite_def draw_bits_frame)

lemma draw_bits_xors: "xors_with (bits_mask sb dy j dx) c (draw_bits sb dy j dx c)"
  by (simp add: xors_with_def draw_bits_length draw_bits_nth)

lemma draw_rows_mask:
  "draw_rows x i dy c = Inr c' \<Longrightarrow>
   \<exists>m. \<forall>d. same_sprite d c \<longrightarrow>
     (\<exists>d'. draw_rows x i dy d = Inr d' \<and> xors_with m d d' \<and> same_sprite d' c)"
proof (induction x i dy c rule: draw_rows.induct)
  case (1 x i dy c)
  show ?case
  proof (cases "i < unat (ins_n (instruction c))")
    case False
    have "\<forall>d. same_sprite d c \<longrightarrow>
       (\<exists>d'. draw_rows x i dy d = Inr d' \<and> xors_with (\<lambda>k. 0) d d' \<and> same_sprite d' c)"
    proof (intro allI impI)
      fix d assume sd: "same_sprite d c"
      then have "draw_rows x i dy d = Inr d"
        using False by (simp add: draw_rows.simps [of x i dy d] same_sprite_def)
      then show "\<exists>d'. draw_rows x i dy d = Inr d' \<and> xors_with (\<lambda>k. 0) d d' \<and> same_sprite d' c"
        using sd by (simp add: xors_with_def)
    qed
    then show ?thesis by blast
  next
    case more: True
    have inr: "unat (indexRegister c) + i < RAM_SIZE"
      using more "1.prems"
      by (auto simp: draw_rows.simps [of x i dy c] ram_read_def split: if_splits)
    let ?sb = "ram c ! (unat (indexRegister c) + i)"
    let ?c1 = "draw_bits ?sb dy 7 x c"
    have rd: "ram_read c (unat (indexRegister c) + i) = Inr ?sb"
      using inr by (simp add: ram_read_def)
    have unfold: "draw_rows x i dy d =
        (if unat (dy + 1) \<ge> WINDOW_HEIGHT then Inr (draw_bits ?sb dy 7 x d)
         else draw_rows x (i + 1) (dy + 1) (draw_bits ?sb dy 7 x d))"
      if "same_sprite d c" for d
      using that more inr
      by (simp add: draw_rows.simps [of x i dy d] same_sprite_def ram_read_def Let_def)
    show ?thesis
    proof (cases "unat (dy + 1) \<ge> WINDOW_HEIGHT")
      case True
      have "\<forall>d. same_sprite d c \<longrightarrow>
         (\<exists>d'. draw_rows x i dy d = Inr d' \<and> xors_with (bits_mask ?sb dy 7 x) d d' \<and>
               same_sprite d' c)"
      proof (intro allI impI)
        fix d assume sd: "same_sprite d c"
        have "same_sprite (draw_bits ?sb dy 7 x d) c"
          using sd by (simp add: same_sprite_def draw_bits_frame)
        then show "\<exists>d'. draw_rows x i dy d = Inr d' \<and> xors_with (bits_mask ?sb dy 7 x) d d' \<and>
               same_sprite d' c"
          using True unfold [OF sd] draw_bits_xors [of ?sb dy 7 x d] by simp
      qed
      then show ?thesis by blast
    next
      case False
      have same_c: "same_sprite c c" by (simp add: same_sprite_def)
      have rec: "draw_rows x (i + 1) (dy + 1) ?c1 = Inr c'"
        using "1.prems" False unfold [OF same_c] by simp
      from "1.IH" [OF more rd refl refl False rec]
      obtain m where m: "\<And>d. same_sprite d ?c1 \<Longrightarrow>
          \<exists>d'. draw_rows x (i + 1) (dy + 1) d = Inr d' \<and> xors_with m d d' \<and> same_sprite d' ?c1"
        by blast
      have c1c: "same_sprite e ?c1 \<longleftrightarrow> same_sprite e c" for e
        by (simp add: same_sprite_def draw_bits_frame)
      have "\<forall>d. same_sprite d c \<longrightarrow>
         (\<exists>d'. draw_rows x i dy d = Inr d' \<and>
               xors_with (\<lambda>k. bits_mask ?sb dy 7 x k XOR m k) d d' \<and> same_sprite d' c)"
      proof (intro allI impI)
        fix d assume sd: "same_sprite d c"
        let ?d1 = "draw_bits ?sb dy 7 x d"
        have sd1: "same_sprite ?d1 ?c1"
          using sd by (simp add: same_sprite_def draw_bits_frame)
        from m [OF sd1] obtain d' where d':
          "draw_rows x (i + 1) (dy + 1) ?d1 = Inr d'" "xors_with m ?d1 d'" "same_sprite d' ?c1"
          by blast
        have "xors_with (\<lambda>k. bits_mask ?sb dy 7 x k XOR m k) d d'"
          using d'(2) draw_bits_xors [of ?sb dy 7 x d]
          by (simp add: xors_with_def xor.assoc)
        then show "\<exists>d'. draw_rows x i dy d = Inr d' \<and>
               xors_with (\<lambda>k. bits_mask ?sb dy 7 x k XOR m k) d d' \<and> same_sprite d' c"
          using d' False unfold [OF sd] by (simp add: c1c)
      qed
      then show ?thesis by blast
    qed
  qed
qed


lemma nextInstruction_decoded:
  assumes "nextInstruction a = Inr a1"
  shows "instruction a1 =
     \<lparr> ins_raw = ins_raw (instruction a1),
       ins_nnn = ins_raw (instruction a1) AND 0x0FFF,
       ins_n = ucast (ins_raw (instruction a1) AND 0x000F),
       ins_x = ucast (drop_bit 8 (ins_raw (instruction a1)) AND 0x000F),
       ins_y = ucast (drop_bit 4 (ins_raw (instruction a1)) AND 0x000F),
       ins_kk = ucast (ins_raw (instruction a1) AND 0x00FF) \<rparr>"
  using assms by (auto simp: nextInstruction_def Let_def split: sum.splits)

lemma nextInstruction_same_raw:
  assumes a: "nextInstruction a = Inr a1" and b: "nextInstruction b = Inr b1"
    and raw: "ins_raw (instruction b1) = ins_raw (instruction a1)"
  shows "instruction b1 = instruction a1"
proof -
  have "instruction b1 =
     \<lparr> ins_raw = ins_raw (instruction b1),
       ins_nnn = ins_raw (instruction b1) AND 0x0FFF,
       ins_n = ucast (ins_raw (instruction b1) AND 0x000F),
       ins_x = ucast (drop_bit 8 (ins_raw (instruction b1)) AND 0x000F),
       ins_y = ucast (drop_bit 4 (ins_raw (instruction b1)) AND 0x000F),
       ins_kk = ucast (ins_raw (instruction b1) AND 0x00FF) \<rparr>"
    by (rule nextInstruction_decoded [OF b])
  also have "\<dots> =
     \<lparr> ins_raw = ins_raw (instruction a1),
       ins_nnn = ins_raw (instruction a1) AND 0x0FFF,
       ins_n = ucast (ins_raw (instruction a1) AND 0x000F),
       ins_x = ucast (drop_bit 8 (ins_raw (instruction a1)) AND 0x000F),
       ins_y = ucast (drop_bit 4 (ins_raw (instruction a1)) AND 0x000F),
       ins_kk = ucast (ins_raw (instruction a1) AND 0x00FF) \<rparr>"
    by (simp only: raw)
  also have "\<dots> = instruction a1"
    by (rule nextInstruction_decoded [OF a, symmetric])
  finally show ?thesis .
qed

text \<open>
  Claim C8. Let a sprite-draw instruction \<^verbatim>\<open>0xDXYN\<close> run from any machine on which it
  returns, and let the next instruction fetched be the same one, with registers \<open>X\<close>
  and \<open>Y\<close> holding what they held before the first draw (the same coordinates). Then
  the second draw returns too, and the frame buffer after it equals the frame buffer
  before the first draw.
\<close>

theorem draw_twice_restores:
  assumes fetch1: "nextInstruction c = Inr c1"
    and fam: "drop_bit 12 (ins_raw (instruction c1)) = 0xD"
    and run1: "emulateInstruction r1 c = Inr c'"
    and fetch2: "nextInstruction c' = Inr c1'"
    and same_ins: "ins_raw (instruction c1') = ins_raw (instruction c1)"
    and same_x: "V c' ! unat (ins_x (instruction c1)) = V c ! unat (ins_x (instruction c1))"
    and same_y: "V c' ! unat (ins_y (instruction c1)) = V c ! unat (ins_y (instruction c1))"
  shows "\<exists>c''. emulateInstruction r2 c' = Inr c'' \<and> frameBuffer c'' = frameBuffer c"
proof -
  let ?x = "Vx c1 mod of_nat WINDOW_WIDTH" and ?y = "Vy c1 mod of_nat WINDOW_HEIGHT"
  let ?s = "setV 0xF 0 c1" and ?s' = "setV 0xF 0 c1'"
  have ins: "instruction c1' = instruction c1"
    using fetch1 fetch2 same_ins by (rule nextInstruction_same_raw)
  have "op_D c1 = Inr c'"
    using run1 fetch1 fam by (simp add: emulateInstruction_def emulateInstruction_switch_def)
  then obtain c2 where c2: "draw_rows ?x 0 ?y ?s = Inr c2" and c': "c' = c2\<lparr>draw := 1\<rparr>"
    by (auto simp: op_D_def Let_def split: sum.splits)
  from draw_rows_mask [OF c2] obtain m where m: "\<And>d. same_sprite d ?s \<Longrightarrow>
      \<exists>d'. draw_rows ?x 0 ?y d = Inr d' \<and> xors_with m d d' \<and> same_sprite d' ?s"
    by blast
  have "same_sprite ?s ?s" by (simp add: same_sprite_def)
  from m [OF this] c2 have first: "xors_with m ?s c2" "same_sprite c2 ?s" by auto
  have "same_sprite ?s' ?s"
    using first(2) fetch2 ins
    by (simp add: same_sprite_def setV_frame nextInstruction_frame c')
  from m [OF this] obtain d' where d': "draw_rows ?x 0 ?y ?s' = Inr d'" "xors_with m ?s' d'"
    by blast
  have xy: "Vx c1' = Vx c1" "Vy c1' = Vy c1"
    using same_x same_y fetch1 fetch2 ins by (simp_all add: Vx_def Vy_def nextInstruction_frame)
  have "op_D c1' = Inr (d'\<lparr>draw := 1\<rparr>)"
    using d'(1) xy by (simp add: op_D_def Let_def)
  then have run2: "emulateInstruction r2 c' = Inr (d'\<lparr>draw := 1\<rparr>)"
    using fetch2 fam ins by (simp add: emulateInstruction_def emulateInstruction_switch_def)
  have fb1: "frameBuffer ?s = frameBuffer c" "frameBuffer ?s' = frameBuffer c2"
    using fetch1 fetch2 by (simp_all add: setV_frame nextInstruction_frame c')
  have "frameBuffer d' = frameBuffer c"
  proof (rule nth_equalityI)
    show "length (frameBuffer d') = length (frameBuffer c)"
      using first(1) d'(2) by (simp add: xors_with_def fb1)
  next
    fix k assume "k < length (frameBuffer d')"
    then have k: "k < length (frameBuffer c)" "k < length (frameBuffer c2)"
      using first(1) d'(2) by (simp_all add: xors_with_def fb1)
    have "frameBuffer d' ! k = frameBuffer c2 ! k XOR m k"
      using d'(2) k by (simp add: xors_with_def fb1)
    also have "frameBuffer c2 ! k = frameBuffer c ! k XOR m k"
      using first(1) k by (simp add: xors_with_def fb1)
    finally show "frameBuffer d' ! k = frameBuffer c ! k" by (simp add: xor.assoc)
  qed
  then show ?thesis using run2 by simp
qed

lemma draw_bits_numeral:
  "draw_bits spriteByte dy (numeral k) dx c =
     (let j = numeral k;
          spriteBit = spriteByte AND push_bit j 1;
          at = unat dy * WINDOW_WIDTH + unat dx;
          frameBufferByte = frameBuffer c ! at;
          c1 = (if spriteBit \<noteq> 0 \<and> frameBufferByte \<noteq> 0
                then setV 0xF (bool_u8 (spriteBit \<noteq> 0 \<and> frameBufferByte \<noteq> 0)) c
                else c);
          c2 = c1\<lparr>frameBuffer := (frameBuffer c1)[at := frameBufferByte XOR spriteBit]\<rparr>;
          dx' = dx + 1
      in if unat dx' \<ge> WINDOW_WIDTH then c2 else draw_bits spriteByte dy (pred_numeral k) dx' c2)"
  by (simp add: numeral_eq_Suc Let_def)

lemmas eval_cycle =
  emulateInstruction_def fetch_at boot_fields RAM_SIZE_def emulateInstruction_switch_def
  op_D_def Let_def Vx_def Vy_def setV_def setVx_def bool_u8_def replicate16 draw_rows.simps
  draw_bits_numeral ram_read_def WINDOW_WIDTH_def WINDOW_HEIGHT_def

lemma boot_ram_nth:
  "ram (boot (b0 # b1 # b2 # b3 # b4 # b5 # b6 # b7 # b8 # rest)) ! 0x200 = b0"
  "ram (boot (b0 # b1 # b2 # b3 # b4 # b5 # b6 # b7 # b8 # rest)) ! 0x201 = b1"
  "ram (boot (b0 # b1 # b2 # b3 # b4 # b5 # b6 # b7 # b8 # rest)) ! 0x202 = b2"
  "ram (boot (b0 # b1 # b2 # b3 # b4 # b5 # b6 # b7 # b8 # rest)) ! 0x203 = b3"
  "ram (boot (b0 # b1 # b2 # b3 # b4 # b5 # b6 # b7 # b8 # rest)) ! 0x204 = b4"
  "ram (boot (b0 # b1 # b2 # b3 # b4 # b5 # b6 # b7 # b8 # rest)) ! 0x205 = b5"
  "ram (boot (b0 # b1 # b2 # b3 # b4 # b5 # b6 # b7 # b8 # rest)) ! 0x206 = b6"
  "ram (boot (b0 # b1 # b2 # b3 # b4 # b5 # b6 # b7 # b8 # rest)) ! 0x207 = b7"
  "ram (boot (b0 # b1 # b2 # b3 # b4 # b5 # b6 # b7 # b8 # rest)) ! 0x208 = b8"
  by (simp_all add: boot_ram nth_append length_font)

lemma draw_twice_first:
  "\<exists>c'. emulateInstruction 0 draw_twice_machine = Inr c' \<and> programCounter c' = 0x202 \<and>
      ram c' = ram draw_twice_machine \<and> V c' ! 0 = 0 \<and>
      frameBuffer c' ! 0 = 0x80"
proof -
  have "ram draw_twice_machine ! 0 = 0xF0"
    by (simp add: draw_twice_machine_def boot_ram font_def font_bytes)
  then show ?thesis
    by (simp add: draw_twice_machine_def eval_cycle boot_ram_first)
qed

text \<open>On \<^verbatim>\<open>D001 D001\<close> the first draw sets cell 0 and the second restores the buffer.\<close>

theorem draw_twice_restores_witness:
  "\<exists>c' c''. emulateInstruction 0 draw_twice_machine = Inr c' \<and>
      frameBuffer c' ! 0 = 0x80 \<and>
      emulateInstruction 0 c' = Inr c'' \<and>
      frameBuffer c'' = frameBuffer draw_twice_machine"
proof -
  from draw_twice_first obtain c' where
    run1: "emulateInstruction 0 draw_twice_machine = Inr c'"
    and c': "programCounter c' = 0x202" "ram c' = ram draw_twice_machine" "V c' ! 0 = 0"
      "frameBuffer c' ! 0 = 0x80"
    by blast
  have fetch1: "nextInstruction draw_twice_machine =
      Inr (draw_twice_machine\<lparr>programCounter := 0x202,
             instruction := \<lparr>ins_raw = 0xD001, ins_nnn = 0x001, ins_n = 1, ins_x = 0,
                             ins_y = 0, ins_kk = 0x01\<rparr>\<rparr>)"
    by (simp add: draw_twice_machine_def fetch_at boot_fields boot_ram_first RAM_SIZE_def)
  have ram: "ram c' ! 0x202 = 0xD0" "ram c' ! 0x203 = 0x01"
    using boot_ram_rom [of 2 "[0xD0, 0x01, 0xD0, 0x01]"]
      boot_ram_rom [of 3 "[0xD0, 0x01, 0xD0, 0x01]"]
    by (simp_all add: c' draw_twice_machine_def)
  have fetch2: "nextInstruction c' =
      Inr (c'\<lparr>programCounter := 0x204,
             instruction := \<lparr>ins_raw = 0xD001, ins_nnn = 0x001, ins_n = 1, ins_x = 0,
                             ins_y = 0, ins_kk = 0x01\<rparr>\<rparr>)"
    using c'(1) ram by (simp add: fetch_at RAM_SIZE_def)
  have v0: "V draw_twice_machine ! 0 = 0"
    by (simp add: draw_twice_machine_def boot_fields)
  from draw_twice_restores [OF fetch1 _ run1 fetch2, of 0] c'(3) v0
  have "\<exists>c''. emulateInstruction 0 c' = Inr c'' \<and> frameBuffer c'' = frameBuffer draw_twice_machine"
    by simp
  then show ?thesis using run1 c'(4) by blast
qed

lemma sprite_81_ram:
  "ram (boot sprite_81_program) ! 0x200 = 0xA2" "ram (boot sprite_81_program) ! 0x201 = 0x04"
  "ram (boot sprite_81_program) ! 0x202 = 0xD0" "ram (boot sprite_81_program) ! 0x203 = 0x01"
  "ram (boot sprite_81_program) ! 0x204 = 0x81"
  using boot_ram_rom [of 0 sprite_81_program] boot_ram_rom [of 1 sprite_81_program]
    boot_ram_rom [of 2 sprite_81_program] boot_ram_rom [of 3 sprite_81_program]
    boot_ram_rom [of 4 sprite_81_program]
  by (simp_all add: sprite_81_program_def)

lemma bit_0_masked_out:
  fixes sb :: u8
  shows "(sb OR 1) AND push_bit (Suc j) 1 = sb AND push_bit (Suc j) 1"
  by (rule bit_eqI) (auto simp: bit_simps)

lemma bit_0_masked_out_power:
  fixes sb :: u8
  shows "(sb OR 1) AND 2 * 2 ^ j = sb AND 2 * 2 ^ j"
  using bit_0_masked_out [of sb j] by simp

lemma draw_bits_ignores_bit_0:
  "draw_bits (sb OR 1) dy j dx c = draw_bits sb dy j dx c"
  by (induction j arbitrary: dx c) (simp_all add: Let_def bit_0_masked_out_power)

text \<open>
  Claim C1 (the code differs). The inner loop runs \<open>j\<close> from 7 down to 1 and never
  reaches bit 0, so a sprite byte is drawn as seven pixels: on every machine, a sprite
  byte with bit 0 set is drawn as the same byte with bit 0 clear. The sprite byte
  \<^verbatim>\<open>0x81\<close> drawn at \<open>(0, 0)\<close> on the cleared screen sets the cell of column 0 and
  leaves the cell of column 7 off.
\<close>

theorem sprite_bit_0_not_drawn:
  "(\<forall>sb dy dx c. draw_bits (sb OR 1) dy 7 dx c = draw_bits sb dy 7 dx c) \<and>
   (\<exists>c'. cycles [0, 0] (boot sprite_81_program) = Inr c' \<and>
      map ((!) (frameBuffer c')) [0, 1, 2, 3, 4, 5, 6, 7] = [0x80, 0, 0, 0, 0, 0, 0, 0] \<and>
      V c' ! 0xF = 0)"
proof -
  define c1 where "c1 = (boot sprite_81_program)\<lparr>programCounter := 0x202,
      instruction := \<lparr>ins_raw = 0xA204, ins_nnn = 0x204, ins_n = 4, ins_x = 2, ins_y = 0,
                      ins_kk = 0x04\<rparr>, indexRegister := 0x204\<rparr>"
  have s1: "emulateInstruction 0 (boot sprite_81_program) = Inr c1"
    by (simp add: eval_cycle c1_def sprite_81_ram)
  have "\<exists>c'. emulateInstruction 0 c1 = Inr c' \<and>
      map ((!) (frameBuffer c')) [0, 1, 2, 3, 4, 5, 6, 7] = [0x80, 0, 0, 0, 0, 0, 0, 0] \<and>
      V c' ! 0xF = 0"
    by (simp add: eval_cycle c1_def sprite_81_ram)
  then have "\<exists>c'. cycles [0, 0] (boot sprite_81_program) = Inr c' \<and>
      map ((!) (frameBuffer c')) [0, 1, 2, 3, 4, 5, 6, 7] = [0x80, 0, 0, 0, 0, 0, 0, 0] \<and>
      V c' ! 0xF = 0"
    using s1 by auto
  then show ?thesis by (simp only: draw_bits_ignores_bit_0 simp_thms)
qed

lemma overlap_ram:
  "ram (boot overlap_program) ! 0x200 = 0x60" "ram (boot overlap_program) ! 0x201 = 0x01"
  "ram (boot overlap_program) ! 0x202 = 0xA2" "ram (boot overlap_program) ! 0x203 = 0x08"
  "ram (boot overlap_program) ! 0x204 = 0xD0" "ram (boot overlap_program) ! 0x205 = 0x11"
  "ram (boot overlap_program) ! 0x206 = 0xD1" "ram (boot overlap_program) ! 0x207 = 0x11"
  "ram (boot overlap_program) ! 0x208 = 0xC0"
  by (simp_all add: overlap_program_def boot_ram_nth)

text \<open>
  Claim C3 (the code differs). The loop XORs the masked bit \<^verbatim>\<open>spriteByte & (1 << j)\<close>
  itself into the cell, so a cell holds the XOR of the masks drawn onto it. After the
  sprite \<^verbatim>\<open>0xC0\<close> is drawn at \<open>(1, 0)\<close>, cell 1 holds \<^verbatim>\<open>0x80\<close> (on); drawn again at
  \<open>(0, 0)\<close>, its bit 6 meets cell 1: the collision is flagged, and the cell holds
  \<^verbatim>\<open>0xC0\<close>, still on.
\<close>

theorem overlapping_bits_leave_pixel_on:
  "\<exists>c3 c4. cycles [0, 0, 0] (boot overlap_program) = Inr c3 \<and>
      map ((!) (frameBuffer c3)) [0, 1, 2, 3] = [0, 0x80, 0x40, 0] \<and>
      cycles [0, 0, 0, 0] (boot overlap_program) = Inr c4 \<and>
      map ((!) (frameBuffer c4)) [0, 1, 2, 3] = [0x80, 0xC0, 0x40, 0] \<and>
      V c4 ! 0xF = 1"
proof -
  define c1 where "c1 = (boot overlap_program)\<lparr>programCounter := 0x202,
      instruction := \<lparr>ins_raw = 0x6001, ins_nnn = 0x001, ins_n = 1, ins_x = 0, ins_y = 0,
                      ins_kk = 0x01\<rparr>,
      V := [1, 0, 0, 0, 0, 0, 0, 0, 0, 0, 0, 0, 0, 0, 0, 0]\<rparr>"
  have s1: "emulateInstruction 0 (boot overlap_program) = Inr c1"
    by (simp add: eval_cycle c1_def overlap_ram)
  define c2 where "c2 = c1\<lparr>programCounter := 0x204,
      instruction := \<lparr>ins_raw = 0xA208, ins_nnn = 0x208, ins_n = 8, ins_x = 2, ins_y = 0,
                      ins_kk = 0x08\<rparr>, indexRegister := 0x208\<rparr>"
  have s2: "emulateInstruction 0 c1 = Inr c2"
    by (simp add: eval_cycle c1_def c2_def overlap_ram)
  define c3 where "c3 = c2\<lparr>programCounter := 0x206,
      instruction := \<lparr>ins_raw = 0xD011, ins_nnn = 0x011, ins_n = 1, ins_x = 0, ins_y = 1,
                      ins_kk = 0x11\<rparr>,
      frameBuffer := (replicate 2048 0)[1 := 0x80, 2 := 0x40], draw := 1\<rparr>"
  have s3: "emulateInstruction 0 c2 = Inr c3"
    by (simp add: eval_cycle c1_def c2_def c3_def overlap_ram numeral_2_eq_2 [symmetric])
  have r3: "map ((!) (frameBuffer c3)) [0, 1, 2, 3] = [0, 0x80, 0x40, 0]"
    by (simp add: c3_def)
  have "\<exists>c4. emulateInstruction 0 c3 = Inr c4 \<and>
      map ((!) (frameBuffer c4)) [0, 1, 2, 3] = [0x80, 0xC0, 0x40, 0] \<and> V c4 ! 0xF = 1"
    by (simp add: eval_cycle c1_def c2_def c3_def overlap_ram)
  then show ?thesis using s1 s2 s3 r3 by auto
qed

end
